theory Spec2Isabelle
  imports Complex_Main "HOL-Library.Word"
begin

section \<open>Domain model\<close>

text \<open>
  Modelled from the spec: the entities and the errors of the domain package, which is not
  among the sources; the fields are those the services under \<open>internal/core/service\<close>
  read and write. Identifiers are Go \<open>uint64\<close> values. Stock and quantity are
  integers that the code only compares and converts. Prices and totals are Go
  \<open>float64\<close> values: the type \<open>'f\<close> stands for them, and the only operations used
  on it are the ones the code applies (\<open>0\<close>, \<open>+\<close>, \<open>-\<close>, \<open>*\<close>, \<open><\<close>), with no
  algebraic law assumed, so that every result holds for whatever these operations compute.
\<close>

type_synonym u64 = "64 word"
type_synonym bytes = "string"

datatype error =
    ErrInternal
  | ErrDataNotFound
  | ErrNoUpdatedData
  | ErrConflictingData
  | ErrInsufficientStock
  | ErrInsufficientPayment
  | ErrAdapter  \<comment> \<open>any error of a storage or cache driver that is not a domain error\<close>

record category =
  category_ID :: u64
  category_Name :: string

record user =
  user_ID :: u64
  user_Name :: string

record payment =
  payment_ID :: u64
  payment_Name :: string

record 'f product =
  product_ID :: u64
  CategoryID :: u64
  product_Name :: string
  Price :: 'f
  Stock :: int
  Category :: "category option"

record 'f order_product =
  ProductID :: u64
  Quantity :: int
  line_TotalPrice :: 'f
  Product :: "'f product option"

record 'f order =
  ID :: u64
  UserID :: u64
  PaymentID :: u64
  TotalPrice :: 'f
  TotalPaid :: 'f
  TotalReturn :: 'f
  User :: "user option"
  Payment :: "payment option"
  Products :: "'f order_product list"

section \<open>Ports\<close>

text \<open>
  Every call a service makes on a port is recorded, in order, in the \<open>calls\<close> of the world.
  The constructors name the methods of the port interfaces; the product repository's
  interface is the one mocked in \<open>internal/core/port/mock/product.go\<close>.
\<close>

datatype call =
    ProductRepo_CreateProduct
  | ProductRepo_GetProductByID u64
  | ProductRepo_ListProducts
  | ProductRepo_UpdateProduct u64
  | ProductRepo_DeleteProduct u64
  | CategoryRepo_GetCategoryByID u64
  | CategoryRepo_UpdateCategory u64
  | UserRepo_GetUserByID u64
  | PaymentRepo_GetPaymentByID u64
  | PaymentRepo_ListPayments u64 u64
  | OrderRepo_CreateOrder
  | OrderRepo_GetOrderByID u64
  | Cache_Get string
  | Cache_Set string bytes nat
  | Cache_Delete string
  | Cache_DeleteByPrefix string

record 'f world =
  products :: "'f product list"
  categories :: "category list"
  users :: "user list"
  payments :: "payment list"
  orders :: "'f order list"
  cache :: "string \<rightharpoonup> bytes \<times> nat"
  calls :: "call list"

text \<open>
  What the services take from their surroundings: \<open>fault n\<close> is the error, if any,
  with which the \<open>n\<close>-th port call of a run fails for a reason of its own (a lost
  connection, a row deleted by another request); \<open>float64\<close> is Go's conversion of an
  integer to \<open>float64\<close>; the remaining fields are the codec of \<open>util.Serialize\<close> and
  \<open>util.Deserialize\<close>.
\<close>

record 'f env =
  fault :: "nat \<Rightarrow> error option"
  float64 :: "int \<Rightarrow> 'f"
  Serialize_order :: "'f order \<Rightarrow> error + bytes"
  Deserialize_order :: "bytes \<Rightarrow> error + 'f order"
  Serialize_category :: "category \<Rightarrow> error + bytes"

text \<open>
  A port call appends itself to the calls made; it fails with the scheduled fault, leaving the
  stores as they are, or else runs its body.
\<close>

definition port ::
  "'f env \<Rightarrow> call \<Rightarrow> ('f world \<Rightarrow> (error + 'a) \<times> 'f world) \<Rightarrow> 'f world
     \<Rightarrow> (error + 'a) \<times> 'f world" where
  "port env c body w =
     (let w1 = w\<lparr>calls := calls w @ [c]\<rparr>
      in case fault env (length (calls w)) of
           Some e \<Rightarrow> (Inl e, w1)
         | None \<Rightarrow> body w1)"

text \<open>
  Modelled from the spec: the repository adapters, of which only the payment repository
  is among the sources. A repository port is CRUD on one table of the relational store;
  a read by id returns the row of that id or the not-found error.
\<close>

definition row_by_id :: "('a \<Rightarrow> u64) \<Rightarrow> 'a list \<Rightarrow> u64 \<Rightarrow> error + 'a" where
  "row_by_id key rows id' =
     (case find (\<lambda>r. key r = id') rows of None \<Rightarrow> Inl ErrDataNotFound | Some r \<Rightarrow> Inr r)"

definition productRepo_GetProductByID ::
  "'f env \<Rightarrow> u64 \<Rightarrow> 'f world \<Rightarrow> (error + 'f product) \<times> 'f world" where
  "productRepo_GetProductByID env id' =
     port env (ProductRepo_GetProductByID id')
       (\<lambda>w. (row_by_id product_ID (products w) id', w))"

definition categoryRepo_GetCategoryByID ::
  "'f env \<Rightarrow> u64 \<Rightarrow> 'f world \<Rightarrow> (error + category) \<times> 'f world" where
  "categoryRepo_GetCategoryByID env id' =
     port env (CategoryRepo_GetCategoryByID id')
       (\<lambda>w. (row_by_id category_ID (categories w) id', w))"

definition userRepo_GetUserByID ::
  "'f env \<Rightarrow> u64 \<Rightarrow> 'f world \<Rightarrow> (error + user) \<times> 'f world" where
  "userRepo_GetUserByID env id' =
     port env (UserRepo_GetUserByID id') (\<lambda>w. (row_by_id user_ID (users w) id', w))"

definition paymentRepo_GetPaymentByID ::
  "'f env \<Rightarrow> u64 \<Rightarrow> 'f world \<Rightarrow> (error + payment) \<times> 'f world" where
  "paymentRepo_GetPaymentByID env id' =
     port env (PaymentRepo_GetPaymentByID id')
       (\<lambda>w. (row_by_id payment_ID (payments w) id', w))"

text \<open>
  Modelled from the spec: the order repository's \<open>CreateOrder\<close>, a single durable write
  of the order. The row keeps the references and the totals, not the attached user,
  payment and products; the adapter writes the new id into the order it was handed and
  returns that order.
\<close>

definition order_row :: "'f order \<Rightarrow> 'f order" where
  "order_row ord =
     ord\<lparr>User := None, Payment := None,
         Products := map (\<lambda>op. op\<lparr>Product := None\<rparr>) (Products ord)\<rparr>"

definition orderRepo_CreateOrder ::
  "'f env \<Rightarrow> 'f order \<Rightarrow> 'f world \<Rightarrow> (error + 'f order) \<times> 'f world" where
  "orderRepo_CreateOrder env ord =
     port env OrderRepo_CreateOrder
       (\<lambda>w. let ord' = ord\<lparr>ID := of_nat (length (orders w)) + 1\<rparr>
            in (Inr ord', w\<lparr>orders := orders w @ [order_row ord']\<rparr>))"

definition orderRepo_GetOrderByID ::
  "'f env \<Rightarrow> u64 \<Rightarrow> 'f world \<Rightarrow> (error + 'f order) \<times> 'f world" where
  "orderRepo_GetOrderByID env id' =
     port env (OrderRepo_GetOrderByID id') (\<lambda>w. (row_by_id ID (orders w) id', w))"

text \<open>
  Modelled from the spec: the category repository's \<open>UpdateCategory\<close>. Category names
  are unique: giving a category the name of another row is a conflict.
\<close>

definition categoryRepo_UpdateCategory ::
  "'f env \<Rightarrow> category \<Rightarrow> 'f world \<Rightarrow> (error + category) \<times> 'f world" where
  "categoryRepo_UpdateCategory env c =
     port env (CategoryRepo_UpdateCategory (category_ID c))
       (\<lambda>w. if find (\<lambda>r. category_ID r = category_ID c) (categories w) = None
            then (Inl ErrAdapter, w)
            else if find (\<lambda>r. category_Name r = category_Name c
                              \<and> category_ID r \<noteq> category_ID c) (categories w) \<noteq> None
            then (Inl ErrConflictingData, w)
            else (Inr c, w\<lparr>categories :=
                    map (\<lambda>r. if category_ID r = category_ID c then c else r) (categories w)\<rparr>))"

text \<open>
  Modelled from the spec: the cache port, a key-value store with a time to live per entry
  (zero for no expiry) and deletion of every key that matches a pattern ending in \<open>*\<close>.
  A miss of \<open>Get\<close> is an error of the driver.
\<close>

definition key_matches :: "string \<Rightarrow> string \<Rightarrow> bool" where
  "key_matches pattern key =
     (if pattern \<noteq> [] \<and> last pattern = CHR ''*''
      then take (length pattern - 1) key = butlast pattern
      else key = pattern)"

definition cache_Get :: "'f env \<Rightarrow> string \<Rightarrow> 'f world \<Rightarrow> (error + bytes) \<times> 'f world" where
  "cache_Get env key =
     port env (Cache_Get key)
       (\<lambda>w. (case cache w key of None \<Rightarrow> Inl ErrAdapter | Some (v, ttl) \<Rightarrow> Inr v, w))"

definition cache_Set ::
  "'f env \<Rightarrow> string \<Rightarrow> bytes \<Rightarrow> nat \<Rightarrow> 'f world \<Rightarrow> (error + unit) \<times> 'f world" where
  "cache_Set env key v ttl =
     port env (Cache_Set key v ttl) (\<lambda>w. (Inr (), w\<lparr>cache := (cache w)(key \<mapsto> (v, ttl))\<rparr>))"

definition cache_Delete :: "'f env \<Rightarrow> string \<Rightarrow> 'f world \<Rightarrow> (error + unit) \<times> 'f world" where
  "cache_Delete env key =
     port env (Cache_Delete key) (\<lambda>w. (Inr (), w\<lparr>cache := (cache w)(key := None)\<rparr>))"

definition cache_DeleteByPrefix ::
  "'f env \<Rightarrow> string \<Rightarrow> 'f world \<Rightarrow> (error + unit) \<times> 'f world" where
  "cache_DeleteByPrefix env pattern =
     port env (Cache_DeleteByPrefix pattern)
       (\<lambda>w. (Inr (), w\<lparr>cache := (\<lambda>k. if key_matches pattern k then None else cache w k)\<rparr>))"

text \<open>
  Modelled from the spec: \<open>util.GenerateCacheKey\<close>, which joins the entity name and the
  id, printed in decimal, with a colon.
\<close>

fun decimal :: "nat \<Rightarrow> string" where
  "decimal n =
     (if n < 10 then [''0123456789'' ! n]
      else decimal (n div 10) @ [''0123456789'' ! (n mod 10)])"

declare decimal.simps [simp del]

definition GenerateCacheKey :: "string \<Rightarrow> u64 \<Rightarrow> string" where
  "GenerateCacheKey prefix id' = prefix @ '':'' @ decimal (unat id')"

section \<open>Order service\<close>

text \<open>
  The services pass a not-found error of a read by id on and collapse every other error
  of it to the internal error.
\<close>

definition notFoundOrInternal :: "error \<Rightarrow> error" where
  "notFoundOrInternal err = (if err = ErrDataNotFound then err else ErrInternal)"

text \<open>
  The first loop of \<open>CreateOrder\<close>, over \<open>order.Products\<close>. Its arguments are the
  total so far and the line items still to visit; it returns the total price or the
  error, the line items as the loop leaves them in the caller's order, and the world.
\<close>

fun validateProducts ::
  "'f::{plus,times} env \<Rightarrow> 'f \<Rightarrow> 'f order_product list \<Rightarrow> 'f world
     \<Rightarrow> (error + 'f) \<times> 'f order_product list \<times> 'f world" where
  "validateProducts env totalPrice [] w = (Inr totalPrice, [], w)"
| "validateProducts env totalPrice (orderProduct # rest) w =
     (case productRepo_GetProductByID env (ProductID orderProduct) w of
        (Inl err, w1) \<Rightarrow> (Inl (notFoundOrInternal err), orderProduct # rest, w1)
      | (Inr product, w1) \<Rightarrow>
          if Stock product < Quantity orderProduct
          then (Inl ErrInsufficientStock, orderProduct # rest, w1)
          else
            let line = orderProduct
                  \<lparr>line_TotalPrice := Price product * float64 env (Quantity orderProduct)\<rparr>
            in case validateProducts env (totalPrice + line_TotalPrice line) rest w1 of
                 (r, rest', w2) \<Rightarrow> (r, line # rest', w2))"

text \<open>
  The loop that attaches to every line item its product and the product's category
  (the same text in \<open>CreateOrder\<close> and in \<open>GetOrder\<close>).
\<close>

fun attachProducts ::
  "'f env \<Rightarrow> 'f order_product list \<Rightarrow> 'f world
     \<Rightarrow> error option \<times> 'f order_product list \<times> 'f world" where
  "attachProducts env [] w = (None, [], w)"
| "attachProducts env (orderProduct # rest) w =
     (case productRepo_GetProductByID env (ProductID orderProduct) w of
        (Inl err, w1) \<Rightarrow> (Some (notFoundOrInternal err), orderProduct # rest, w1)
      | (Inr product, w1) \<Rightarrow>
          (case categoryRepo_GetCategoryByID env (CategoryID product) w1 of
             (Inl err, w2) \<Rightarrow> (Some (notFoundOrInternal err), orderProduct # rest, w2)
           | (Inr category, w2) \<Rightarrow>
               let line = orderProduct
                     \<lparr>Product := Some (product\<lparr>Category := Some category\<rparr>)\<rparr>
               in case attachProducts env rest w2 of
                    (r, rest', w3) \<Rightarrow> (r, line # rest', w3)))"

text \<open>
  The reads that attach the user, the payment and the products to an order that the
  order repository returned (the same text in \<open>CreateOrder\<close> and in \<open>GetOrder\<close>).
\<close>

definition attachRelations ::
  "'f env \<Rightarrow> 'f order \<Rightarrow> 'f world \<Rightarrow> error option \<times> 'f order \<times> 'f world" where
  "attachRelations env ord w =
     (case userRepo_GetUserByID env (UserID ord) w of
        (Inl err, w1) \<Rightarrow> (Some (notFoundOrInternal err), ord, w1)
      | (Inr user, w1) \<Rightarrow>
          (case paymentRepo_GetPaymentByID env (PaymentID ord) w1 of
             (Inl err, w2) \<Rightarrow> (Some (notFoundOrInternal err), ord, w2)
           | (Inr payment, w2) \<Rightarrow>
               let ord1 = ord\<lparr>User := Some user, Payment := Some payment\<rparr>
               in case attachProducts env (Products ord1) w2 of
                    (r, lines, w3) \<Rightarrow> (r, ord1\<lparr>Products := lines\<rparr>, w3)))"

text \<open>
  \<open>CreateOrder\<close> returns its result, the caller's order as the call leaves it (the
  order is passed by pointer and written to), and the world.
\<close>

definition CreateOrder ::
  "'f::{zero,plus,minus,times,ord} env \<Rightarrow> 'f order \<Rightarrow> 'f world
     \<Rightarrow> (error + 'f order) \<times> 'f order \<times> 'f world" where
  "CreateOrder env ord w =
     (case validateProducts env 0 (Products ord) w of
        (Inl err, lines, w1) \<Rightarrow> (Inl err, ord\<lparr>Products := lines\<rparr>, w1)
      | (Inr totalPrice, lines, w1) \<Rightarrow>
          let ord1 = ord\<lparr>Products := lines\<rparr>
          in if TotalPaid ord1 < totalPrice then (Inl ErrInsufficientPayment, ord1, w1)
             else
               let ord2 = ord1\<lparr>TotalPrice := totalPrice\<rparr> in
               let ord3 = ord2\<lparr>TotalReturn := TotalPaid ord2 - TotalPrice ord2\<rparr>
               in (case orderRepo_CreateOrder env ord3 w1 of
                     (Inl err, w2) \<Rightarrow> (Inl ErrInternal, ord3, w2)
                   | (Inr ord4, w2) \<Rightarrow>
                       (case attachRelations env ord4 w2 of
                          (Some err, ord5, w3) \<Rightarrow> (Inl err, ord5, w3)
                        | (None, ord5, w3) \<Rightarrow>
                            (case cache_DeleteByPrefix env ''orders:*'' w3 of
                               (Inl err, w4) \<Rightarrow> (Inl ErrInternal, ord5, w4)
                             | (Inr _, w4) \<Rightarrow>
                                 let cacheKey = GenerateCacheKey ''order'' (ID ord5)
                                 in (case Serialize_order env ord5 of
                                       Inl err \<Rightarrow> (Inl ErrInternal, ord5, w4)
                                     | Inr orderSerialized \<Rightarrow>
                                         (case cache_Set env cacheKey orderSerialized 0 w4 of
                                            (Inl err, w5) \<Rightarrow> (Inl ErrInternal, ord5, w5)
                                          | (Inr _, w5) \<Rightarrow> (Inr ord5, ord5, w5)))))))"

definition GetOrder ::
  "'f env \<Rightarrow> u64 \<Rightarrow> 'f world \<Rightarrow> (error + 'f order) \<times> 'f world" where
  "GetOrder env id' w =
     (let cacheKey = GenerateCacheKey ''order'' id'
      in case cache_Get env cacheKey w of
           (Inr cachedOrder, w1) \<Rightarrow>
             (case Deserialize_order env cachedOrder of
                Inl err \<Rightarrow> (Inl ErrInternal, w1)
              | Inr ord \<Rightarrow> (Inr ord, w1))
         | (Inl _, w1) \<Rightarrow>
             (case orderRepo_GetOrderByID env id' w1 of
                (Inl err, w2) \<Rightarrow> (Inl (notFoundOrInternal err), w2)
              | (Inr ord, w2) \<Rightarrow>
                  (case attachRelations env ord w2 of
                     (Some err, ord1, w3) \<Rightarrow> (Inl err, w3)
                   | (None, ord1, w3) \<Rightarrow>
                       (case Serialize_order env ord1 of
                          Inl err \<Rightarrow> (Inl ErrInternal, w3)
                        | Inr orderSerialized \<Rightarrow>
                            (case cache_Set env cacheKey orderSerialized 0 w3 of
                               (Inl err, w4) \<Rightarrow> (Inl ErrInternal, w4)
                             | (Inr _, w4) \<Rightarrow> (Inr ord1, w4))))))"

section \<open>Category service\<close>

definition UpdateCategory ::
  "'f env \<Rightarrow> category \<Rightarrow> 'f world \<Rightarrow> (error + category) \<times> 'f world" where
  "UpdateCategory env category w =
     (case categoryRepo_GetCategoryByID env (category_ID category) w of
        (Inl err, w1) \<Rightarrow> (Inl (notFoundOrInternal err), w1)
      | (Inr existingCategory, w1) \<Rightarrow>
          let emptyData = (category_Name category = []) in
          let sameData = (category_Name existingCategory = category_Name category)
          in if emptyData \<or> sameData then (Inl ErrNoUpdatedData, w1)
             else
               (case categoryRepo_UpdateCategory env category w1 of
                  (Inl err, w2) \<Rightarrow>
                    (Inl (if err = ErrConflictingData then err else ErrInternal), w2)
                | (Inr _, w2) \<Rightarrow>
                    let cacheKey = GenerateCacheKey ''category'' (category_ID category)
                    in (case cache_Delete env cacheKey w2 of
                          (Inl err, w3) \<Rightarrow> (Inl ErrInternal, w3)
                        | (Inr _, w3) \<Rightarrow>
                            (case Serialize_category env category of
                               Inl err \<Rightarrow> (Inl ErrInternal, w3)
                             | Inr categorySerialized \<Rightarrow>
                                 (case cache_Set env cacheKey categorySerialized 0 w3 of
                                    (Inl err, w4) \<Rightarrow> (Inl ErrInternal, w4)
                                  | (Inr _, w4) \<Rightarrow>
                                      (case cache_DeleteByPrefix env ''categories:*'' w4 of
                                         (Inl err, w5) \<Rightarrow> (Inl ErrInternal, w5)
                                       | (Inr _, w5) \<Rightarrow> (Inr category, w5)))))))"

section \<open>Payment repository\<close>

text \<open>
  \<open>ListPayments\<close> of the postgres adapter builds
  \<open>SELECT * FROM payments ORDER BY id LIMIT limit OFFSET (skip - 1) * limit\<close>, the
  offset computed on \<open>uint64\<close>, and returns the rows of the answer; an error of the
  query is returned as it is. The rows of \<open>LIMIT\<close> and \<open>OFFSET\<close> are those of SQL.
\<close>

definition ListPayments_offset :: "u64 \<Rightarrow> u64 \<Rightarrow> u64" where
  "ListPayments_offset skip limit = (skip - 1) * limit"

definition ListPayments ::
  "'f env \<Rightarrow> u64 \<Rightarrow> u64 \<Rightarrow> 'f world \<Rightarrow> (error + payment list) \<times> 'f world" where
  "ListPayments env skip limit =
     port env (PaymentRepo_ListPayments skip limit)
       (\<lambda>w. (Inr (take (unat limit)
                    (drop (unat (ListPayments_offset skip limit))
                       (sort_key payment_ID (payments w)))), w))"

section \<open>Vocabulary of the properties\<close>

text \<open>
  The reads of the product repository that a loop over line items issues, in order.
\<close>

definition productReads :: "'f order_product list \<Rightarrow> call list" where
  "productReads ops = map (\<lambda>l. ProductRepo_GetProductByID (ProductID l)) ops"

text \<open>
  \<open>priced env ps l l'\<close>: the line item \<open>l'\<close> is \<open>l\<close> with its total set to the
  price of its product, a row of \<open>ps\<close> with enough stock, times the quantity.
\<close>

definition priced ::
  "'f::times env \<Rightarrow> 'f product list \<Rightarrow> 'f order_product \<Rightarrow> 'f order_product \<Rightarrow> bool" where
  "priced env ps l l' \<longleftrightarrow>
     (\<exists>p. row_by_id product_ID ps (ProductID l) = Inr p \<and> \<not> Stock p < Quantity l
        \<and> l' = l\<lparr>line_TotalPrice := Price p * float64 env (Quantity l)\<rparr>)"

text \<open>
  The calls that only read a store, and the calls that write to the product repository.
\<close>

fun is_read :: "call \<Rightarrow> bool" where
  "is_read (ProductRepo_GetProductByID _) = True"
| "is_read ProductRepo_ListProducts = True"
| "is_read (CategoryRepo_GetCategoryByID _) = True"
| "is_read (UserRepo_GetUserByID _) = True"
| "is_read (PaymentRepo_GetPaymentByID _) = True"
| "is_read (PaymentRepo_ListPayments _ _) = True"
| "is_read (OrderRepo_GetOrderByID _) = True"
| "is_read (Cache_Get _) = True"
| "is_read _ = False"

fun is_product_write :: "call \<Rightarrow> bool" where
  "is_product_write ProductRepo_CreateProduct = True"
| "is_product_write (ProductRepo_UpdateProduct _) = True"
| "is_product_write (ProductRepo_DeleteProduct _) = True"
| "is_product_write _ = False"

text \<open>
  \<open>attached ps cs l l'\<close>: the line item \<open>l'\<close> is \<open>l\<close> with its product, a row of
  \<open>ps\<close>, attached, and to the product its category, a row of \<open>cs\<close>.
\<close>

definition attached ::
  "'f product list \<Rightarrow> category list \<Rightarrow> 'f order_product \<Rightarrow> 'f order_product \<Rightarrow> bool" where
  "attached ps cs l l' \<longleftrightarrow>
     (\<exists>p c. row_by_id product_ID ps (ProductID l) = Inr p
        \<and> row_by_id category_ID cs (CategoryID p) = Inr c
        \<and> l' = l\<lparr>Product := Some (p\<lparr>Category := Some c\<rparr>)\<rparr>)"

text \<open>
  \<open>reads_only w w'\<close>: the world \<open>w'\<close> is \<open>w\<close> after calls that only read, so
  that the two differ in the calls made and in nothing else.
\<close>

definition reads_only :: "'f world \<Rightarrow> 'f world \<Rightarrow> bool" where
  "reads_only w w' \<longleftrightarrow> (\<exists>cs. w' = w\<lparr>calls := calls w @ cs\<rparr> \<and> list_all is_read cs)"

text \<open>
  \<open>line_found w l\<close>: the stores of \<open>w\<close> hold the product of the line item and
  the category of that product. \<open>relations_found w ord\<close>: they hold the user and the
  payment of the order, and every line item of the order is found.
\<close>

definition line_found :: "'f world \<Rightarrow> 'f order_product \<Rightarrow> bool" where
  "line_found w l \<longleftrightarrow>
     (case row_by_id product_ID (products w) (ProductID l) of
        Inl e \<Rightarrow> False
      | Inr p \<Rightarrow> \<not> isl (row_by_id category_ID (categories w) (CategoryID p)))"

definition relations_found :: "'f world \<Rightarrow> 'f order \<Rightarrow> bool" where
  "relations_found w ord \<longleftrightarrow>
     \<not> isl (row_by_id user_ID (users w) (UserID ord))
     \<and> \<not> isl (row_by_id payment_ID (payments w) (PaymentID ord))
     \<and> list_all (line_found w) (Products ord)"

section \<open>Scenarios\<close>

text \<open>
  A shop with one product (tea at 10.00, five in stock), one category, one user and one
  payment method, and a cached page of the order listing. The orders of the scenarios
  are built by \<open>order_for\<close>; the environment takes its schedule of faults as an
  argument and converts integers as the reals do.
\<close>

definition tea :: "real product" where
  "tea = \<lparr>product_ID = 1, CategoryID = 1, product_Name = ''tea'', Price = 10, Stock = 5,
           Category = None\<rparr>"

definition drinks :: category where
  "drinks = \<lparr>category_ID = 1, category_Name = ''drinks''\<rparr>"

definition shop :: "real world" where
  "shop = \<lparr>products = [tea], categories = [drinks],
            users = [\<lparr>user_ID = 1, user_Name = ''ann''\<rparr>],
            payments = [\<lparr>payment_ID = 1, payment_Name = ''cash''\<rparr>],
            orders = [],
            cache = [''orders:1-10'' \<mapsto> (''[]'', 0)],
            calls = []\<rparr>"

definition line_for :: "u64 \<Rightarrow> int \<Rightarrow> real order_product" where
  "line_for pid q = \<lparr>ProductID = pid, Quantity = q, line_TotalPrice = 0, Product = None\<rparr>"

definition order_for :: "u64 \<Rightarrow> real order_product list \<Rightarrow> real \<Rightarrow> real order" where
  "order_for uid ls paid =
     \<lparr>ID = 0, UserID = uid, PaymentID = 1, TotalPrice = 0, TotalPaid = paid, TotalReturn = 0,
      User = None, Payment = None, Products = ls\<rparr>"

definition shop_env :: "(nat \<Rightarrow> error option) \<Rightarrow> real env" where
  "shop_env f =
     \<lparr>fault = f, float64 = of_int,
      Serialize_order = (\<lambda>ord. Inr (''order '' @ decimal (unat (ID ord)))),
      Deserialize_order = (\<lambda>bs. if bs = ''order 0'' then Inr (order_for 1 [] 0) else Inl ErrAdapter),
      Serialize_category = (\<lambda>c. Inr (category_Name c))\<rparr>"

text \<open>
  The shop with a cache that holds a serialized order under \<open>order:1\<close> and bytes
  that are no order under \<open>order:2\<close>.
\<close>

definition shop_cached :: "real world" where
  "shop_cached =
     shop\<lparr>cache := [''order:1'' \<mapsto> (''order 0'', 0), ''order:2'' \<mapsto> (''garbage'', 0)]\<rparr>"

text \<open>
  The equations that evaluate a run of a scenario.
\<close>

lemmas scenario_defs = tea_def drinks_def shop_def line_for_def order_for_def shop_env_def
lemmas port_defs = port_def row_by_id_def productRepo_GetProductByID_def
  categoryRepo_GetCategoryByID_def userRepo_GetUserByID_def paymentRepo_GetPaymentByID_def
  orderRepo_CreateOrder_def order_row_def cache_Set_def cache_DeleteByPrefix_def cache_Get_def
  key_matches_def GenerateCacheKey_def decimal.simps notFoundOrInternal_def
lemmas run_defs = CreateOrder_def attachRelations_def Let_def scenario_defs port_defs

section \<open>The ports and the loops\<close>

lemma productRepo_GetProductByID_eq:
  "productRepo_GetProductByID env i w =
     (case fault env (length (calls w)) of
        Some e \<Rightarrow> Inl e
      | None \<Rightarrow> row_by_id product_ID (products w) i,
      w\<lparr>calls := calls w @ [ProductRepo_GetProductByID i]\<rparr>)"
  by (simp add: productRepo_GetProductByID_def port_def split: option.splits)

lemma productReads_simps [simp]:
  "productReads [] = []"
  "productReads (l # ops) = ProductRepo_GetProductByID (ProductID l) # productReads ops"
  "productReads (xs @ ys) = productReads xs @ productReads ys"
  by (simp_all add: productReads_def)

lemma validateProducts_world:
  "validateProducts env t ops w = (r, ops', w') \<Longrightarrow>
     \<exists>k \<le> length ops. w' = w\<lparr>calls := calls w @ productReads (take k ops)\<rparr>"
proof (induction ops arbitrary: t w r ops' w')
  case Nil
  then show ?case by simp
next
  case (Cons l ops)
  let ?w1 = "w\<lparr>calls := calls w @ [ProductRepo_GetProductByID (ProductID l)]\<rparr>"
  show ?case
  proof (cases "fst (productRepo_GetProductByID env (ProductID l) w)")
    case (Inl e)
    with Cons.prems have "w' = ?w1"
      by (auto simp: productRepo_GetProductByID_eq split: option.splits sum.splits)
    then show ?thesis by (intro exI[of _ 1]) simp
  next
    case (Inr p)
    show ?thesis
    proof (cases "Stock p < Quantity l")
      case True
      with Inr Cons.prems have "w' = ?w1"
        by (auto simp: productRepo_GetProductByID_eq split: option.splits sum.splits)
      then show ?thesis by (intro exI[of _ 1]) simp
    next
      case False
      with Inr Cons.prems obtain t' r' ops'' where
        "validateProducts env t' ops ?w1 = (r', ops'', w')"
        by (auto simp: productRepo_GetProductByID_eq Let_def split: option.splits sum.splits prod.splits)
      from Cons.IH[OF this] obtain k where "k \<le> length ops"
        "w' = ?w1\<lparr>calls := calls ?w1 @ productReads (take k ops)\<rparr>" by blast
      then show ?thesis by (intro exI[of _ "Suc k"]) simp
    qed
  qed
qed

lemma validateProducts_success:
  "validateProducts env t ops w = (Inr tp, ops', w') \<Longrightarrow>
     w' = w\<lparr>calls := calls w @ productReads ops\<rparr>
     \<and> list_all2 (priced env (products w)) ops ops'
     \<and> tp = foldl (+) t (map line_TotalPrice ops')"
proof (induction ops arbitrary: t w ops' w')
  case Nil
  then show ?case by simp
next
  case (Cons l ops)
  let ?w1 = "w\<lparr>calls := calls w @ [ProductRepo_GetProductByID (ProductID l)]\<rparr>"
  from Cons.prems obtain p rest' where
    p: "row_by_id product_ID (products w) (ProductID l) = Inr p" "\<not> Stock p < Quantity l"
    and rec: "validateProducts env (t + Price p * float64 env (Quantity l)) ops ?w1
               = (Inr tp, rest', w')"
    and ops': "ops' = l\<lparr>line_TotalPrice := Price p * float64 env (Quantity l)\<rparr> # rest'"
    by (auto simp: productRepo_GetProductByID_eq Let_def split: option.splits sum.splits prod.splits if_splits)
  from Cons.IH[OF rec] p ops' show ?case
    by (simp add: priced_def)
qed

lemma validateProducts_failure:
  "validateProducts env t ops w = (Inl e, ops', w') \<Longrightarrow>
     \<exists>pre line post pre'.
       ops = pre @ line # post \<and> ops' = pre' @ line # post
       \<and> list_all2 (priced env (products w)) pre pre'
       \<and> w' = w\<lparr>calls := calls w @ productReads (pre @ [line])\<rparr>
       \<and> (e = ErrDataNotFound \<or> e = ErrInternal \<or> e = ErrInsufficientStock)"
proof (induction ops arbitrary: t w ops' w')
  case Nil
  then show ?case by simp
next
  case (Cons l ops)
  let ?w1 = "w\<lparr>calls := calls w @ [ProductRepo_GetProductByID (ProductID l)]\<rparr>"
  let ?l' = "\<lambda>p. l\<lparr>line_TotalPrice := Price p * float64 env (Quantity l)\<rparr>"
  consider
      (stop) "ops' = l # ops" "w' = ?w1"
        "e = ErrDataNotFound \<or> e = ErrInternal \<or> e = ErrInsufficientStock"
    | (go) p rest' where
        "row_by_id product_ID (products w) (ProductID l) = Inr p" "\<not> Stock p < Quantity l"
        "validateProducts env (t + Price p * float64 env (Quantity l)) ops ?w1 = (Inl e, rest', w')"
        "ops' = ?l' p # rest'"
    using Cons.prems
    by (auto simp: productRepo_GetProductByID_eq Let_def notFoundOrInternal_def
             split: option.splits sum.splits prod.splits if_splits)
  then show ?case
  proof cases
    case stop
    then show ?thesis
      by (intro exI[of _ "[]"] exI[of _ l] exI[of _ ops]) simp
  next
    case go
    from Cons.IH[OF go(3)] obtain pre line post pre' where
      h: "ops = pre @ line # post" "rest' = pre' @ line # post"
         "list_all2 (priced env (products w)) pre pre'"
         "w' = ?w1\<lparr>calls := calls ?w1 @ productReads (pre @ [line])\<rparr>"
         "e = ErrDataNotFound \<or> e = ErrInternal \<or> e = ErrInsufficientStock"
      by auto
    have "priced env (products w) l (?l' p)"
      using go(1,2) by (auto simp: priced_def)
    with h go(4) show ?thesis
      by (intro exI[of _ "l # pre"] exI[of _ line] exI[of _ post] exI[of _ "?l' p # pre'"])
         simp
  qed
qed

lemma categoryRepo_GetCategoryByID_eq:
  "categoryRepo_GetCategoryByID env i w =
     (case fault env (length (calls w)) of
        Some e \<Rightarrow> Inl e
      | None \<Rightarrow> row_by_id category_ID (categories w) i,
      w\<lparr>calls := calls w @ [CategoryRepo_GetCategoryByID i]\<rparr>)"
  by (simp add: categoryRepo_GetCategoryByID_def port_def split: option.splits)

lemma userRepo_GetUserByID_eq:
  "userRepo_GetUserByID env i w =
     (case fault env (length (calls w)) of
        Some e \<Rightarrow> Inl e
      | None \<Rightarrow> row_by_id user_ID (users w) i,
      w\<lparr>calls := calls w @ [UserRepo_GetUserByID i]\<rparr>)"
  by (simp add: userRepo_GetUserByID_def port_def split: option.splits)

lemma paymentRepo_GetPaymentByID_eq:
  "paymentRepo_GetPaymentByID env i w =
     (case fault env (length (calls w)) of
        Some e \<Rightarrow> Inl e
      | None \<Rightarrow> row_by_id payment_ID (payments w) i,
      w\<lparr>calls := calls w @ [PaymentRepo_GetPaymentByID i]\<rparr>)"
  by (simp add: paymentRepo_GetPaymentByID_def port_def split: option.splits)

lemma cache_Get_eq:
  "cache_Get env key w =
     (case fault env (length (calls w)) of
        Some e \<Rightarrow> Inl e
      | None \<Rightarrow> (case cache w key of None \<Rightarrow> Inl ErrAdapter | Some (v, ttl) \<Rightarrow> Inr v),
      w\<lparr>calls := calls w @ [Cache_Get key]\<rparr>)"
  by (simp add: cache_Get_def port_def split: option.splits)

lemma orderRepo_CreateOrder_eq:
  "orderRepo_CreateOrder env ord w =
     (case fault env (length (calls w)) of
        Some e \<Rightarrow> (Inl e, w\<lparr>calls := calls w @ [OrderRepo_CreateOrder]\<rparr>)
      | None \<Rightarrow>
          (Inr (ord\<lparr>ID := of_nat (length (orders w)) + 1\<rparr>),
           w\<lparr>calls := calls w @ [OrderRepo_CreateOrder],
             orders := orders w @ [order_row (ord\<lparr>ID := of_nat (length (orders w)) + 1\<rparr>)]\<rparr>))"
  by (simp add: orderRepo_CreateOrder_def port_def Let_def split: option.splits)

lemma cache_Set_eq:
  "cache_Set env key v ttl w =
     (case fault env (length (calls w)) of
        Some e \<Rightarrow> (Inl e, w\<lparr>calls := calls w @ [Cache_Set key v ttl]\<rparr>)
      | None \<Rightarrow>
          (Inr (), w\<lparr>calls := calls w @ [Cache_Set key v ttl],
                     cache := (cache w)(key \<mapsto> (v, ttl))\<rparr>))"
  by (simp add: cache_Set_def port_def split: option.splits)

lemma cache_DeleteByPrefix_eq:
  "cache_DeleteByPrefix env pat w =
     (case fault env (length (calls w)) of
        Some e \<Rightarrow> (Inl e, w\<lparr>calls := calls w @ [Cache_DeleteByPrefix pat]\<rparr>)
      | None \<Rightarrow>
          (Inr (), w\<lparr>calls := calls w @ [Cache_DeleteByPrefix pat],
                     cache := (\<lambda>k. if key_matches pat k then None else cache w k)\<rparr>))"
  by (simp add: cache_DeleteByPrefix_def port_def Let_def cong: if_cong split: option.splits)

lemma notFoundOrInternal_cases:
  "notFoundOrInternal e = ErrDataNotFound \<or> notFoundOrInternal e = ErrInternal"
  by (simp add: notFoundOrInternal_def)

lemma validateProducts_overstock:
  assumes "row_by_id product_ID (products w) (ProductID line) = Inr p"
      and "Stock p < Quantity line"
  shows "\<exists>e. fst (validateProducts env t (pre @ line # post) w) = Inl e"
  using assms
proof (induction pre arbitrary: t w)
  case Nil
  then show ?case
    by (auto simp: productRepo_GetProductByID_eq split: option.splits)
next
  case (Cons l pre)
  let ?w1 = "w\<lparr>calls := calls w @ [ProductRepo_GetProductByID (ProductID l)]\<rparr>"
  have "\<exists>e. fst (validateProducts env t' (pre @ line # post) ?w1) = Inl e" for t'
    using Cons.IH[of ?w1 t'] Cons.prems by simp
  then show ?case
    by (auto simp: productRepo_GetProductByID_eq Let_def
             split: option.splits sum.splits prod.splits)
       (metis fst_conv)
qed

lemma validateProducts_overstock_first:
  assumes "row_by_id product_ID (products w) (ProductID line) = Inr p"
      and "Stock p < Quantity line"
      and "\<forall>l\<in>set pre. \<exists>q. row_by_id product_ID (products w) (ProductID l) = Inr q
                              \<and> \<not> Stock q < Quantity l"
      and "\<forall>n\<le>length pre. fault env (length (calls w) + n) = None"
  shows "fst (validateProducts env t (pre @ line # post) w) = Inl ErrInsufficientStock"
  using assms
proof (induction pre arbitrary: t w)
  case Nil
  then show ?case
    by (auto simp: productRepo_GetProductByID_eq split: option.splits)
next
  case (Cons l pre)
  let ?w1 = "w\<lparr>calls := calls w @ [ProductRepo_GetProductByID (ProductID l)]\<rparr>"
  from Cons.prems(3) obtain q where
    q: "row_by_id product_ID (products w) (ProductID l) = Inr q" "\<not> Stock q < Quantity l"
    by auto
  from Cons.prems(4) have f0: "fault env (length (calls w)) = None"
    by (metis add.right_neutral le0)
  have "\<forall>n\<le>length pre. fault env (length (calls ?w1) + n) = None"
  proof (intro allI impI)
    fix n assume "n \<le> length pre"
    then have "Suc n \<le> length (l # pre)" by simp
    with Cons.prems(4) have "fault env (length (calls w) + Suc n) = None" by blast
    then show "fault env (length (calls ?w1) + n) = None" by simp
  qed
  with Cons.IH[of ?w1 "t + Price q * float64 env (Quantity l)"] Cons.prems(1,2,3)
  have "fst (validateProducts env (t + Price q * float64 env (Quantity l))
               (pre @ line # post) ?w1) = Inl ErrInsufficientStock"
    by simp
  with q f0 show ?case
    by (auto simp: productRepo_GetProductByID_eq Let_def split: prod.splits)
qed

lemma reads_only_refl: "reads_only w w"
  unfolding reads_only_def by (intro exI[of _ "[]"]) simp

lemma reads_only_calls: "list_all is_read cs \<Longrightarrow> reads_only w (w\<lparr>calls := calls w @ cs\<rparr>)"
  unfolding reads_only_def by blast

lemma reads_only_append:
  assumes "list_all is_read cs" and "reads_only (w\<lparr>calls := calls w @ cs\<rparr>) w'"
  shows "reads_only w w'"
proof -
  from assms(2) obtain cs' where "w' = w\<lparr>calls := calls w @ cs @ cs'\<rparr>" "list_all is_read cs'"
    by (auto simp: reads_only_def)
  with assms(1) show ?thesis
    unfolding reads_only_def by (intro exI[of _ "cs @ cs'"]) simp
qed

lemma reads_only_stores:
  assumes "reads_only w w'"
  shows "products w' = products w" "categories w' = categories w" "users w' = users w"
    "payments w' = payments w" "orders w' = orders w" "cache w' = cache w"
  using assms by (auto simp: reads_only_def)

lemma attachProducts_world:
  "attachProducts env ops w = (r, ops', w') \<Longrightarrow> reads_only w w'"
proof (induction ops arbitrary: w r ops' w')
  case Nil
  then show ?case by (auto simp: reads_only_refl)
next
  case (Cons l ops)
  have rec: "reads_only w b"
    if "attachProducts env ops (w\<lparr>calls := calls w @ [c1, c2]\<rparr>) = (r, a, b)"
       "is_read c1" "is_read c2" for c1 c2 r a b
    by (rule reads_only_append[OF _ Cons.IH[OF that(1)]]) (simp add: that)
  from Cons.prems show ?case
    by (auto simp: productRepo_GetProductByID_eq categoryRepo_GetCategoryByID_eq Let_def
                   reads_only_calls
             split: option.splits sum.splits prod.splits intro: rec)
qed

lemma attachProducts_success:
  "attachProducts env ops w = (None, ops', w') \<Longrightarrow>
     list_all2 (attached (products w) (categories w)) ops ops'"
proof (induction ops arbitrary: w ops' w')
  case Nil
  then show ?case by simp
next
  case (Cons l ops)
  let ?w1 = "w\<lparr>calls := calls w @ [ProductRepo_GetProductByID (ProductID l)]\<rparr>"
  from Cons.prems obtain p c rest' where
    p: "row_by_id product_ID (products w) (ProductID l) = Inr p"
       "row_by_id category_ID (categories w) (CategoryID p) = Inr c"
    and rec: "attachProducts env ops
               (?w1\<lparr>calls := calls ?w1 @ [CategoryRepo_GetCategoryByID (CategoryID p)]\<rparr>)
              = (None, rest', w')"
    and ops': "ops' = l\<lparr>Product := Some (p\<lparr>Category := Some c\<rparr>)\<rparr> # rest'"
    by (auto simp: productRepo_GetProductByID_eq categoryRepo_GetCategoryByID_eq Let_def
             split: option.splits sum.splits prod.splits)
  have "attached (products w) (categories w) l (l\<lparr>Product := Some (p\<lparr>Category := Some c\<rparr>)\<rparr>)"
    using p by (auto simp: attached_def)
  with Cons.IH[OF rec] ops' show ?case by simp
qed

lemma attachProducts_error:
  "attachProducts env ops w = (Some e, ops', w') \<Longrightarrow> e = ErrDataNotFound \<or> e = ErrInternal"
proof (induction ops arbitrary: w ops' w')
  case Nil
  then show ?case by simp
next
  case (Cons l ops)
  then show ?case
    using notFoundOrInternal_cases
    by (fastforce simp: Let_def split: sum.splits prod.splits)
qed

lemma attachRelations_world:
  assumes "attachRelations env ord w = (r, ord', w')"
  shows "reads_only w w'"
proof -
  have rec: "reads_only w b"
    if "attachProducts env ops (w\<lparr>calls := calls w @ [c1, c2]\<rparr>) = (r, a, b)"
       "is_read c1" "is_read c2" for c1 c2 r a b ops
    by (rule reads_only_append[OF _ attachProducts_world[OF that(1)]]) (simp add: that)
  from assms show ?thesis
    by (auto simp: attachRelations_def userRepo_GetUserByID_eq paymentRepo_GetPaymentByID_eq
                   Let_def reads_only_calls
             split: option.splits sum.splits prod.splits intro: rec)
qed

lemma attachRelations_success:
  "attachRelations env ord w = (None, ord', w') \<Longrightarrow>
     \<exists>u pm lines.
        row_by_id user_ID (users w) (UserID ord) = Inr u
      \<and> row_by_id payment_ID (payments w) (PaymentID ord) = Inr pm
      \<and> list_all2 (attached (products w) (categories w)) (Products ord) lines
      \<and> ord' = ord\<lparr>User := Some u, Payment := Some pm, Products := lines\<rparr>"
proof -
  assume a: "attachRelations env ord w = (None, ord', w')"
  let ?w1 = "w\<lparr>calls := calls w @ [UserRepo_GetUserByID (UserID ord)]\<rparr>"
  let ?w2 = "?w1\<lparr>calls := calls ?w1 @ [PaymentRepo_GetPaymentByID (PaymentID ord)]\<rparr>"
  from a obtain u pm lines where
    h: "row_by_id user_ID (users w) (UserID ord) = Inr u"
       "row_by_id payment_ID (payments w) (PaymentID ord) = Inr pm"
       "attachProducts env (Products ord) ?w2 = (None, lines, w')"
       "ord' = ord\<lparr>User := Some u, Payment := Some pm, Products := lines\<rparr>"
    by (auto simp: attachRelations_def userRepo_GetUserByID_eq paymentRepo_GetPaymentByID_eq
                   Let_def split: option.splits sum.splits prod.splits)
  from attachProducts_success[OF h(3)] h(1,2,4) show ?thesis by auto
qed

lemma attachRelations_error:
  "attachRelations env ord w = (Some e, ord', w') \<Longrightarrow> e = ErrDataNotFound \<or> e = ErrInternal"
  using notFoundOrInternal_cases
  by (fastforce simp: attachRelations_def Let_def
                split: sum.splits prod.splits dest: attachProducts_error)

lemma CreateOrder_validate_fails:
  "validateProducts env 0 (Products ord) w = (Inl e, lines, w1) \<Longrightarrow>
     CreateOrder env ord w = (Inl e, ord\<lparr>Products := lines\<rparr>, w1)"
  by (simp add: CreateOrder_def)

lemma CreateOrder_underpaid:
  "validateProducts env 0 (Products ord) w = (Inr tp, lines, w1) \<Longrightarrow> TotalPaid ord < tp \<Longrightarrow>
     CreateOrder env ord w = (Inl ErrInsufficientPayment, ord\<lparr>Products := lines\<rparr>, w1)"
  by (simp add: CreateOrder_def)

lemma CreateOrder_write_faulted:
  "validateProducts env 0 (Products ord) w = (Inr tp, lines, w1) \<Longrightarrow> \<not> TotalPaid ord < tp \<Longrightarrow>
   fault env (length (calls w1)) = Some e \<Longrightarrow>
     CreateOrder env ord w =
       (Inl ErrInternal,
        ord\<lparr>Products := lines, TotalPrice := tp, TotalReturn := TotalPaid ord - tp\<rparr>,
        w1\<lparr>calls := calls w1 @ [OrderRepo_CreateOrder]\<rparr>)"
  by (simp add: CreateOrder_def orderRepo_CreateOrder_eq)

lemma CreateOrder_written:
  assumes "validateProducts env 0 (Products ord) w = (Inr tp, lines, w1)"
      and "\<not> TotalPaid ord < tp"
      and "fault env (length (calls w1)) = None"
      and "ord4 = ord\<lparr>Products := lines, TotalPrice := tp, TotalReturn := TotalPaid ord - tp,
                        ID := of_nat (length (orders w1)) + 1\<rparr>"
      and "w2 = w1\<lparr>calls := calls w1 @ [OrderRepo_CreateOrder],
                     orders := orders w1 @ [order_row ord4]\<rparr>"
  shows "CreateOrder env ord w =
     (case attachRelations env ord4 w2 of
        (Some err, ord5, w3) \<Rightarrow> (Inl err, ord5, w3)
      | (None, ord5, w3) \<Rightarrow>
          (case fault env (length (calls w3)) of
             Some err \<Rightarrow> (Inl ErrInternal, ord5, w3\<lparr>calls := calls w3 @ [Cache_DeleteByPrefix ''orders:*'']\<rparr>)
           | None \<Rightarrow>
              (case Serialize_order env ord5 of
                 Inl err \<Rightarrow> (Inl ErrInternal, ord5,
                    w3\<lparr>calls := calls w3 @ [Cache_DeleteByPrefix ''orders:*''],
                       cache := (\<lambda>k. if key_matches ''orders:*'' k then None else cache w3 k)\<rparr>)
               | Inr bs \<Rightarrow>
                  (case fault env (Suc (length (calls w3))) of
                     Some err \<Rightarrow> (Inl ErrInternal, ord5,
                        w3\<lparr>calls := calls w3 @ [Cache_DeleteByPrefix ''orders:*'',
                                       Cache_Set (GenerateCacheKey ''order'' (ID ord5)) bs 0],
                           cache := (\<lambda>k. if key_matches ''orders:*'' k then None else cache w3 k)\<rparr>)
                   | None \<Rightarrow> (Inr ord5, ord5,
                        w3\<lparr>calls := calls w3 @ [Cache_DeleteByPrefix ''orders:*'',
                                       Cache_Set (GenerateCacheKey ''order'' (ID ord5)) bs 0],
                           cache := (\<lambda>k. if key_matches ''orders:*'' k then None else cache w3 k)
                                      (GenerateCacheKey ''order'' (ID ord5) \<mapsto> (bs, 0))\<rparr>)))))"
  using assms
  by (simp add: CreateOrder_def orderRepo_CreateOrder_eq cache_DeleteByPrefix_eq cache_Set_eq Let_def
           split: prod.splits option.splits sum.splits)

lemma validateProducts_calls:
  "validateProducts env t ops w = (Inr tp, lines, w1) \<Longrightarrow>
     w1 = w\<lparr>calls := calls w @ productReads ops\<rparr>"
  by (simp add: validateProducts_success)

lemma CreateOrder_success:
  fixes env :: "'f::{zero,plus,minus,times,ord} env"
  assumes "CreateOrder env ord w = (Inr ord', co, w')"
  obtains tp lines w1 ord4 w2 w3 bs where
    "validateProducts env 0 (Products ord) w = (Inr tp, lines, w1)"
    "\<not> TotalPaid ord < tp"
    "ord4 = ord\<lparr>Products := lines, TotalPrice := tp, TotalReturn := TotalPaid ord - tp,
                  ID := of_nat (length (orders w1)) + 1\<rparr>"
    "w2 = w1\<lparr>calls := calls w1 @ [OrderRepo_CreateOrder],
               orders := orders w1 @ [order_row ord4]\<rparr>"
    "attachRelations env ord4 w2 = (None, ord', w3)"
    "Serialize_order env ord' = Inr bs"
    "co = ord'"
    "w' = w3\<lparr>calls := calls w3 @ [Cache_DeleteByPrefix ''orders:*'',
                                   Cache_Set (GenerateCacheKey ''order'' (ID ord')) bs 0],
              cache := (\<lambda>k. if key_matches ''orders:*'' k then None else cache w3 k)
                         (GenerateCacheKey ''order'' (ID ord') \<mapsto> (bs, 0))\<rparr>"
proof -
  obtain rv lines w1 where v: "validateProducts env 0 (Products ord) w = (rv, lines, w1)"
    by (metis prod_cases3)
  from assms v obtain tp where rv: "rv = Inr tp"
    by (cases rv) (auto simp: CreateOrder_validate_fails)
  from assms v rv have paid: "\<not> TotalPaid ord < tp"
    by (auto simp: CreateOrder_underpaid)
  from assms v rv paid have f: "fault env (length (calls w1)) = None"
    by (cases "fault env (length (calls w1))") (auto simp: CreateOrder_write_faulted)
  define ord4 where "ord4 = ord\<lparr>Products := lines, TotalPrice := tp,
     TotalReturn := TotalPaid ord - tp, ID := of_nat (length (orders w1)) + 1\<rparr>"
  define w2 where "w2 = w1\<lparr>calls := calls w1 @ [OrderRepo_CreateOrder],
     orders := orders w1 @ [order_row ord4]\<rparr>"
  obtain ra ord5 w3 where a: "attachRelations env ord4 w2 = (ra, ord5, w3)"
    by (metis prod_cases3)
  note w = CreateOrder_written[OF v[unfolded rv] paid f ord4_def w2_def, unfolded a]
  from assms w have ra: "ra = None" and o5: "ord5 = ord'" and co: "co = ord'"
    by (auto split: option.splits sum.splits)
  from assms w ra obtain bs where bs: "Serialize_order env ord' = Inr bs"
    and w': "w' = w3\<lparr>calls := calls w3 @ [Cache_DeleteByPrefix ''orders:*'',
                                   Cache_Set (GenerateCacheKey ''order'' (ID ord')) bs 0],
              cache := (\<lambda>k. if key_matches ''orders:*'' k then None else cache w3 k)
                         (GenerateCacheKey ''order'' (ID ord') \<mapsto> (bs, 0))\<rparr>"
    by (auto split: option.splits sum.splits)
  from that[OF v[unfolded rv] paid ord4_def w2_def a[unfolded ra o5] bs co w'] show thesis .
qed

lemma list_all2_priced_nth:
  assumes "list_all2 (priced env ps) ops lines" "i < length ops"
  shows "\<exists>p. row_by_id product_ID ps (ProductID (ops ! i)) = Inr p
           \<and> \<not> Stock p < Quantity (ops ! i)
           \<and> lines ! i = (ops ! i)\<lparr>line_TotalPrice := Price p * float64 env (Quantity (ops ! i))\<rparr>"
  using list_all2_nthD[OF assms] by (simp add: priced_def)

lemma list_all2_attached_totals:
  "list_all2 (attached ps cs) lines lines' \<Longrightarrow>
     map line_TotalPrice lines' = map line_TotalPrice lines
     \<and> map ProductID lines' = map ProductID lines
     \<and> map Quantity lines' = map Quantity lines"
  by (induction rule: list_all2_induct) (auto simp: attached_def)

lemma order_key_not_listing: "\<not> key_matches ''orders:*'' (GenerateCacheKey ''order'' i)"
  by (simp add: key_matches_def GenerateCacheKey_def)

lemma list_all2_attached_product:
  "list_all2 (attached ps cs) lines lines' \<Longrightarrow>
     \<forall>l\<in>set lines'. \<exists>p c. Product l = Some p \<and> Category p = Some c"
  by (induction rule: list_all2_induct) (auto simp: attached_def)

lemma line_found_stores:
  "products w' = products w \<Longrightarrow> categories w' = categories w \<Longrightarrow>
     line_found w' = line_found w"
  by (rule ext) (simp add: line_found_def split: sum.splits)

lemma line_found_priced:
  "list_all2 (priced env ps) ops lines \<Longrightarrow> list_all (line_found w) ops \<Longrightarrow>
     list_all (line_found w) lines"
  by (induction rule: list_all2_induct) (auto simp: priced_def line_found_def)

lemma attachProducts_total:
  assumes "\<forall>n. fault env n = None" and "list_all (line_found w) ops"
  shows "\<exists>lines' w'. attachProducts env ops w = (None, lines', w')"
  using assms
proof (induction ops arbitrary: w)
  case Nil
  then show ?case by simp
next
  case (Cons l ops)
  from Cons.prems(2) obtain p c where
    p: "row_by_id product_ID (products w) (ProductID l) = Inr p"
       "row_by_id category_ID (categories w) (CategoryID p) = Inr c"
    by (auto simp: line_found_def isl_def split: sum.splits) (metis sum.exhaust)
  let ?w2 = "w\<lparr>calls := calls w @ [ProductRepo_GetProductByID (ProductID l),
                                     CategoryRepo_GetCategoryByID (CategoryID p)]\<rparr>"
  have "line_found ?w2 = line_found w" by (rule line_found_stores) simp_all
  with Cons.IH[of ?w2] Cons.prems obtain lines' w' where
    "attachProducts env ops ?w2 = (None, lines', w')" by auto
  with p Cons.prems(1) show ?case
    by (simp add: productRepo_GetProductByID_eq categoryRepo_GetCategoryByID_eq)
qed

lemma CreateOrder_after_payment_error:
  fixes env :: "'f::{zero,plus,minus,times,ord} env"
  assumes "CreateOrder env ord w = (Inl e, co, w')"
      and "validateProducts env 0 (Products ord) w = (Inr tp, lines, w1)"
      and "\<not> TotalPaid ord < tp"
  shows "e = ErrDataNotFound \<or> e = ErrInternal"
proof (cases "fault env (length (calls w1))")
  case (Some e')
  from CreateOrder_write_faulted[OF assms(2,3) Some] assms(1) show ?thesis by simp
next
  case None
  define ord4 where "ord4 = ord\<lparr>Products := lines, TotalPrice := tp,
     TotalReturn := TotalPaid ord - tp, ID := of_nat (length (orders w1)) + 1\<rparr>"
  define w2 where "w2 = w1\<lparr>calls := calls w1 @ [OrderRepo_CreateOrder],
     orders := orders w1 @ [order_row ord4]\<rparr>"
  obtain ra ord5 w3 where a: "attachRelations env ord4 w2 = (ra, ord5, w3)"
    by (metis prod_cases3)
  note w = CreateOrder_written[OF assms(2,3) None ord4_def w2_def, unfolded a]
  show ?thesis
  proof (cases ra)
    case None
    with w assms(1) show ?thesis by (auto split: option.splits sum.splits)
  next
    case (Some e')
    with w assms(1) have "e = e'" by simp
    with attachRelations_error[OF a[unfolded Some]] show ?thesis by simp
  qed
qed

lemma CreateOrder_after_write:
  fixes env :: "'f::{zero,plus,minus,times,ord} env"
  assumes "CreateOrder env ord w = (r, co, w')"
      and "validateProducts env 0 (Products ord) w = (Inr tp, lines, w1)"
      and "\<not> TotalPaid ord < tp"
      and "fault env (length (calls w1)) = None"
  shows "orders w' = orders w @
           [order_row (ord\<lparr>Products := lines, TotalPrice := tp,
              TotalReturn := TotalPaid ord - tp, ID := of_nat (length (orders w)) + 1\<rparr>)]"
proof -
  define ord4 where "ord4 = ord\<lparr>Products := lines, TotalPrice := tp,
     TotalReturn := TotalPaid ord - tp, ID := of_nat (length (orders w1)) + 1\<rparr>"
  define w2 where "w2 = w1\<lparr>calls := calls w1 @ [OrderRepo_CreateOrder],
     orders := orders w1 @ [order_row ord4]\<rparr>"
  obtain ra ord5 w3 where a: "attachRelations env ord4 w2 = (ra, ord5, w3)"
    by (metis prod_cases3)
  note w = CreateOrder_written[OF assms(2,3,4) ord4_def w2_def, unfolded a]
  from reads_only_stores(5)[OF attachRelations_world[OF a]]
  have "orders w3 = orders w2" .
  with w assms(1) have "orders w' = orders w2"
    by (auto split: option.splits sum.splits)
  then show ?thesis
    by (simp add: w2_def ord4_def validateProducts_calls[OF assms(2)])
qed

lemma CreateOrder_succeeds:
  fixes env :: "'f::{zero,plus,minus,times,ord} env"
  assumes v: "validateProducts env 0 (Products ord) w = (Inr tp, lines, w1)"
      and paid: "\<not> TotalPaid ord < tp"
      and nofault: "\<forall>n. fault env n = None"
      and found: "relations_found w ord"
      and ser: "\<forall>x. \<not> isl (Serialize_order env x)"
  shows "\<exists>x w'. CreateOrder env ord w = (Inr x, x, w')"
proof -
  define ord4 where "ord4 = ord\<lparr>Products := lines, TotalPrice := tp,
     TotalReturn := TotalPaid ord - tp, ID := of_nat (length (orders w1)) + 1\<rparr>"
  define w2 where "w2 = w1\<lparr>calls := calls w1 @ [OrderRepo_CreateOrder],
     orders := orders w1 @ [order_row ord4]\<rparr>"
  from nofault have f: "fault env (length (calls w1)) = None" by simp
  note w = CreateOrder_written[OF v paid f ord4_def w2_def]
  note vs = validateProducts_success[OF v]
  from vs have pr: "list_all2 (priced env (products w)) (Products ord) lines" by simp
  from found obtain u pm where
    u: "row_by_id user_ID (users w) (UserID ord) = Inr u"
    and pm: "row_by_id payment_ID (payments w) (PaymentID ord) = Inr pm"
    by (auto simp: relations_found_def isl_def) (metis sum.exhaust)
  have stores: "products w2 = products w" "categories w2 = categories w"
    "users w2 = users w" "payments w2 = payments w"
    by (simp_all add: w2_def validateProducts_calls[OF v])
  let ?w4 = "w2\<lparr>calls := calls w2 @ [UserRepo_GetUserByID (UserID ord4),
                                       PaymentRepo_GetPaymentByID (PaymentID ord4)]\<rparr>"
  have "line_found ?w4 = line_found w"
    by (rule line_found_stores) (simp_all add: stores)
  with line_found_priced[OF pr] found have "list_all (line_found ?w4) lines"
    by (simp add: relations_found_def)
  from attachProducts_total[OF nofault this] obtain lines' w3 where
    ap: "attachProducts env lines ?w4 = (None, lines', w3)" by blast
  have a: "attachRelations env ord4 w2
             = (None, ord4\<lparr>User := Some u, Payment := Some pm, Products := lines'\<rparr>, w3)"
    using u pm ap nofault
    by (simp add: attachRelations_def userRepo_GetUserByID_eq paymentRepo_GetPaymentByID_eq
                  stores ord4_def)
  from ser obtain bs where
    "Serialize_order env (ord4\<lparr>User := Some u, Payment := Some pm, Products := lines'\<rparr>) = Inr bs"
    by (metis isl_def sum.exhaust)
  with w a nofault show ?thesis by simp
qed

lemma is_read_not_product_write: "is_read c \<Longrightarrow> \<not> is_product_write c"
  by (cases c) simp_all

lemma productReads_not_product_write:
  "list_all (\<lambda>c. \<not> is_product_write c) (productReads ops)"
  by (induction ops) simp_all

lemma reads_only_not_product_write:
  assumes "reads_only w w'"
  shows "\<exists>cs. calls w' = calls w @ cs \<and> list_all (\<lambda>c. \<not> is_product_write c) cs"
proof -
  from assms obtain cs where "calls w' = calls w @ cs" "list_all is_read cs"
    by (auto simp: reads_only_def)
  moreover from this(2) have "list_all (\<lambda>c. \<not> is_product_write c) cs"
    by (induction cs) (simp_all add: is_read_not_product_write)
  ultimately show ?thesis by blast
qed

lemma CreateOrder_world:
  fixes env :: "'f::{zero,plus,minus,times,ord} env"
  assumes run: "CreateOrder env ord w = (r, co, w')"
  shows "products w' = products w
       \<and> (\<exists>cs. calls w' = calls w @ cs \<and> list_all (\<lambda>c. \<not> is_product_write c) cs)"
proof -
  obtain rv lines w1 where v: "validateProducts env 0 (Products ord) w = (rv, lines, w1)"
    by (metis prod_cases3)
  from validateProducts_world[OF v] obtain k where
    w1: "w1 = w\<lparr>calls := calls w @ productReads (take k (Products ord))\<rparr>" by blast
  have base: "products w1 = products w
       \<and> (\<exists>cs. calls w1 = calls w @ cs \<and> list_all (\<lambda>c. \<not> is_product_write c) cs)"
    using productReads_not_product_write by (auto simp: w1)
  have step: ?thesis
    if "products w' = products w1"
       "\<exists>ds. calls w' = calls w1 @ ds \<and> list_all (\<lambda>c. \<not> is_product_write c) ds"
  proof -
    from that(2) obtain ds where
      "calls w' = calls w1 @ ds" "list_all (\<lambda>c. \<not> is_product_write c) ds" by blast
    moreover from base obtain cs where
      "calls w1 = calls w @ cs" "list_all (\<lambda>c. \<not> is_product_write c) cs" by blast
    ultimately have "calls w' = calls w @ (cs @ ds)"
      "list_all (\<lambda>c. \<not> is_product_write c) (cs @ ds)" by simp_all
    with that(1) base show ?thesis by metis
  qed
  show ?thesis
  proof (cases rv)
    case (Inl e)
    from CreateOrder_validate_fails[OF v[unfolded Inl]] run have "w' = w1" by simp
    with base show ?thesis by simp
  next
    case (Inr tp)
    note v' = v[unfolded Inr]
    show ?thesis
    proof (cases "TotalPaid ord < tp")
      case True
      from CreateOrder_underpaid[OF v' True] run have "w' = w1" by simp
      with base show ?thesis by simp
    next
      case False
      show ?thesis
      proof (cases "fault env (length (calls w1))")
        case (Some e)
        from CreateOrder_write_faulted[OF v' False Some] run
        have "w' = w1\<lparr>calls := calls w1 @ [OrderRepo_CreateOrder]\<rparr>" by simp
        then show ?thesis by (intro step) simp_all
      next
        case None
        define ord4 where "ord4 = ord\<lparr>Products := lines, TotalPrice := tp,
          TotalReturn := TotalPaid ord - tp, ID := of_nat (length (orders w1)) + 1\<rparr>"
        define w2 where "w2 = w1\<lparr>calls := calls w1 @ [OrderRepo_CreateOrder],
          orders := orders w1 @ [order_row ord4]\<rparr>"
        obtain ra ord5 w3 where a: "attachRelations env ord4 w2 = (ra, ord5, w3)"
          by (metis prod_cases3)
        note wr = CreateOrder_written[OF v' False None ord4_def w2_def, unfolded a]
        from reads_only_not_product_write[OF attachRelations_world[OF a]] obtain cs where
          cs: "calls w3 = calls w1 @ OrderRepo_CreateOrder # cs"
              "list_all (\<lambda>c. \<not> is_product_write c) cs"
          by (auto simp: w2_def)
        from reads_only_stores(1)[OF attachRelations_world[OF a]]
        have p3: "products w3 = products w1" by (simp add: w2_def)
        from wr run have "products w' = products w3
          \<and> (\<exists>ds. calls w' = calls w3 @ ds \<and> list_all (\<lambda>c. \<not> is_product_write c) ds)"
          by (auto split: option.splits sum.splits)
        then obtain ds where ds: "products w' = products w3" "calls w' = calls w3 @ ds"
          "list_all (\<lambda>c. \<not> is_product_write c) ds" by blast
        show ?thesis
        proof (rule step)
          show "products w' = products w1" using ds(1) p3 by simp
          show "\<exists>ds. calls w' = calls w1 @ ds \<and> list_all (\<lambda>c. \<not> is_product_write c) ds"
            using ds(2,3) cs by (intro exI[of _ "OrderRepo_CreateOrder # cs @ ds"]) simp
        qed
      qed
    qed
  qed
qed

section \<open>The claims\<close>

subsection \<open>Stock check of \<open>CreateOrder\<close>\<close>

text \<open>
  Claim C1, as amended. Let a line item of the order ask for more than the stock of its
  product. Then \<open>CreateOrder\<close> fails, with \<open>ErrInsufficientStock\<close>,
  \<open>ErrDataNotFound\<close> or \<open>ErrInternal\<close>, and nothing is changed before it fails: the
  world after the call is the world before it with reads of the product repository added
  to the calls made, so no order is persisted and no cache entry is written or deleted.
  The error is \<open>ErrInsufficientStock\<close> when every line item before that one has its
  product in the store with a stock not below the quantity (a quantity equal to the stock
  passes) and none of the reads up to that line item fails on its own; otherwise an
  earlier line item has stopped the loop with its own error.
\<close>

theorem CreateOrder_insufficient_stock:
  fixes env :: "'f::{zero,plus,minus,times,ord} env"
  assumes "CreateOrder env ord w = (r, ord', w')"
    and "Products ord = pre @ line # post"
    and "row_by_id product_ID (products w) (ProductID line) = Inr p"
    and "Stock p < Quantity line"
  shows "(\<exists>e. r = Inl e \<and> (e = ErrInsufficientStock \<or> e = ErrDataNotFound \<or> e = ErrInternal))
       \<and> (\<exists>k\<le>length (Products ord).
             w' = w\<lparr>calls := calls w @ productReads (take k (Products ord))\<rparr>)
       \<and> orders w' = orders w \<and> cache w' = cache w
       \<and> ((\<forall>l\<in>set pre. \<exists>q. row_by_id product_ID (products w) (ProductID l) = Inr q
                                \<and> \<not> Stock q < Quantity l)
            \<and> (\<forall>n\<le>length pre. fault env (length (calls w) + n) = None)
           \<longrightarrow> r = Inl ErrInsufficientStock)"
proof -
  obtain rv lines w1 where v: "validateProducts env 0 (Products ord) w = (rv, lines, w1)"
    by (metis prod_cases3)
  from validateProducts_overstock[OF assms(3,4), of env 0 pre post] v assms(2)
  obtain e where e: "rv = Inl e" by auto
  from CreateOrder_validate_fails[OF v[unfolded e]] assms(1)
  have r: "r = Inl e" and w': "w' = w1" by simp_all
  from validateProducts_failure[OF v[unfolded e]]
  have kind: "e = ErrInsufficientStock \<or> e = ErrDataNotFound \<or> e = ErrInternal" by auto
  from validateProducts_world[OF v] w'
  have world: "\<exists>k\<le>length (Products ord).
                 w' = w\<lparr>calls := calls w @ productReads (take k (Products ord))\<rparr>"
    by simp
  then have stores: "orders w' = orders w" "cache w' = cache w" by auto
  have first: "r = Inl ErrInsufficientStock"
    if "\<forall>l\<in>set pre. \<exists>q. row_by_id product_ID (products w) (ProductID l) = Inr q
                            \<and> \<not> Stock q < Quantity l"
       "\<forall>n\<le>length pre. fault env (length (calls w) + n) = None"
    using validateProducts_overstock_first[OF assms(3,4) that, of 0 post] v assms(2) r e
    by simp
  from r kind world stores first show ?thesis by blast
qed

text \<open>
  The theorem at an order of five teas, all the stock, and then six more: the first line
  item passes, the second fails the check, and the stores are as before.
\<close>

theorem CreateOrder_insufficient_stock_witness:
  "Products (order_for 1 [line_for 1 5, line_for 1 6] 200) = [line_for 1 5] @ line_for 1 6 # []
   \<and> row_by_id product_ID (products shop) (ProductID (line_for 1 6)) = Inr tea
   \<and> Stock tea < Quantity (line_for 1 6)
   \<and> Stock tea = Quantity (line_for 1 5)
   \<and> fst (CreateOrder (shop_env (\<lambda>n. None)) (order_for 1 [line_for 1 5, line_for 1 6] 200) shop)
       = Inl ErrInsufficientStock
   \<and> orders (snd (snd (CreateOrder (shop_env (\<lambda>n. None))
        (order_for 1 [line_for 1 5, line_for 1 6] 200) shop))) = []
   \<and> cache (snd (snd (CreateOrder (shop_env (\<lambda>n. None))
        (order_for 1 [line_for 1 5, line_for 1 6] 200) shop))) = cache shop"
  using CreateOrder_insufficient_stock
    [of "shop_env (\<lambda>n. None)" "order_for 1 [line_for 1 5, line_for 1 6] 200" shop
        "fst (CreateOrder (shop_env (\<lambda>n. None)) (order_for 1 [line_for 1 5, line_for 1 6] 200) shop)"
        "fst (snd (CreateOrder (shop_env (\<lambda>n. None)) (order_for 1 [line_for 1 5, line_for 1 6] 200) shop))"
        "snd (snd (CreateOrder (shop_env (\<lambda>n. None)) (order_for 1 [line_for 1 5, line_for 1 6] 200) shop))"
        "[line_for 1 5]" "line_for 1 6" "[]" tea]
  by (simp add: scenario_defs row_by_id_def)

text \<open>
  The claim as first stated promises \<open>ErrInsufficientStock\<close> for every such order.
  An order whose first line item names a product that does not exist and whose second
  line item asks for six teas fails with \<open>ErrDataNotFound\<close> instead.
\<close>

theorem CreateOrder_insufficient_stock_counterexample:
  "row_by_id product_ID (products shop) (ProductID (line_for 1 6)) = Inr tea
   \<and> Stock tea < Quantity (line_for 1 6)
   \<and> fst (CreateOrder (shop_env (\<lambda>n. None)) (order_for 1 [line_for 7 1, line_for 1 6] 200) shop)
       = Inl ErrDataNotFound"
  by (simp add: CreateOrder_def scenario_defs port_defs)

subsection \<open>Line totals and total price\<close>

text \<open>
  Claim C3. In the order that a successful \<open>CreateOrder\<close> returns, every line item
  keeps its product and quantity and has as its total the price of its product, as the
  product repository held it when the call was made, times the quantity; and the total
  price of the order is the sum of the line totals, added up from zero in the order of
  the line items.
\<close>

theorem CreateOrder_totals:
  fixes env :: "'f::{zero,plus,minus,times,ord} env"
  assumes "CreateOrder env ord w = (Inr ord', co, w')"
  shows "length (Products ord') = length (Products ord)
       \<and> (\<forall>i<length (Products ord).
             \<exists>p. row_by_id product_ID (products w) (ProductID (Products ord ! i)) = Inr p
               \<and> ProductID (Products ord' ! i) = ProductID (Products ord ! i)
               \<and> Quantity (Products ord' ! i) = Quantity (Products ord ! i)
               \<and> line_TotalPrice (Products ord' ! i)
                   = Price p * float64 env (Quantity (Products ord ! i)))
       \<and> TotalPrice ord' = foldl (+) 0 (map line_TotalPrice (Products ord'))"
proof -
  from assms obtain tp lines w1 ord4 w2 w3 where
    v: "validateProducts env 0 (Products ord) w = (Inr tp, lines, w1)"
    and ord4: "ord4 = ord\<lparr>Products := lines, TotalPrice := tp,
                 TotalReturn := TotalPaid ord - tp, ID := of_nat (length (orders w1)) + 1\<rparr>"
    and a: "attachRelations env ord4 w2 = (None, ord', w3)"
    by (rule CreateOrder_success)
  from validateProducts_success[OF v]
  have pr: "list_all2 (priced env (products w)) (Products ord) lines"
    and tp: "tp = foldl (+) 0 (map line_TotalPrice lines)" by simp_all
  from attachRelations_success[OF a] ord4 obtain lines' where
    at: "list_all2 (attached (products w2) (categories w2)) lines lines'"
    and ord': "Products ord' = lines'" "TotalPrice ord' = tp"
    by auto
  note same = list_all2_attached_totals[OF at]
  have len: "length lines' = length (Products ord)"
    using list_all2_lengthD[OF pr] list_all2_lengthD[OF at] by simp
  have line: "\<exists>p. row_by_id product_ID (products w) (ProductID (Products ord ! i)) = Inr p
               \<and> ProductID (lines' ! i) = ProductID (Products ord ! i)
               \<and> Quantity (lines' ! i) = Quantity (Products ord ! i)
               \<and> line_TotalPrice (lines' ! i) = Price p * float64 env (Quantity (Products ord ! i))"
    if i: "i < length (Products ord)" for i
  proof -
    from list_all2_priced_nth[OF pr i] obtain p where
      p: "row_by_id product_ID (products w) (ProductID (Products ord ! i)) = Inr p"
         "lines ! i = (Products ord ! i)
            \<lparr>line_TotalPrice := Price p * float64 env (Quantity (Products ord ! i))\<rparr>"
      by blast
    from i len list_all2_lengthD[OF at] have i': "i < length lines" "i < length lines'"
      by simp_all
    from same i' have "line_TotalPrice (lines' ! i) = line_TotalPrice (lines ! i)"
      "ProductID (lines' ! i) = ProductID (lines ! i)"
      "Quantity (lines' ! i) = Quantity (lines ! i)"
      by (metis nth_map)+
    with p show ?thesis by simp
  qed
  from len line ord' tp same show ?thesis by simp
qed

text \<open>
  The order of three teas paid with 40.00: the line total and the total price are 30.00.
\<close>

theorem CreateOrder_totals_witness:
  "fst (CreateOrder (shop_env (\<lambda>n. None)) (order_for 1 [line_for 1 3] 40) shop)
     = Inr (fst (snd (CreateOrder (shop_env (\<lambda>n. None)) (order_for 1 [line_for 1 3] 40) shop)))
   \<and> map line_TotalPrice (Products (fst (snd
        (CreateOrder (shop_env (\<lambda>n. None)) (order_for 1 [line_for 1 3] 40) shop)))) = [30]
   \<and> TotalPrice (fst (snd
        (CreateOrder (shop_env (\<lambda>n. None)) (order_for 1 [line_for 1 3] 40) shop))) = 30"
proof -
  let ?R = "CreateOrder (shop_env (\<lambda>n. None)) (order_for 1 [line_for 1 3] 40) shop"
  have run: "?R = (Inr (fst (snd ?R)), fst (snd ?R), snd (snd ?R))"
    by (simp add: CreateOrder_def scenario_defs port_defs attachRelations_def Let_def)
  have lines: "map line_TotalPrice (Products (fst (snd ?R))) = [30]"
    by (simp add: CreateOrder_def scenario_defs port_defs attachRelations_def Let_def)
  from CreateOrder_totals[OF run]
  have "TotalPrice (fst (snd ?R)) = foldl (+) 0 (map line_TotalPrice (Products (fst (snd ?R))))"
    by blast
  with lines have tp: "TotalPrice (fst (snd ?R)) = 30" by simp
  from run have "fst ?R = Inr (fst (snd ?R))" by (metis fst_conv)
  with lines tp show ?thesis by blast
qed

subsection \<open>Cache operations of a successful \<open>CreateOrder\<close>\<close>

text \<open>
  Claim C6. A \<open>CreateOrder\<close> that returns an order has made, as its last two calls,
  the deletion of the cache entries that match \<open>orders:*\<close> and then the store of the
  serialized order under the key of the order's id with a time to live of zero. After the
  call the cache holds that entry and no entry whose key matches \<open>orders:*\<close>. The order
  stored is the one returned, with its user, its payment, and on every line item the
  product and the product's category attached.
\<close>

theorem CreateOrder_cache:
  fixes env :: "'f::{zero,plus,minus,times,ord} env"
  assumes "CreateOrder env ord w = (Inr ord', co, w')"
  shows "\<exists>cs bs.
           calls w' = calls w @ cs @
             [Cache_DeleteByPrefix ''orders:*'',
              Cache_Set (GenerateCacheKey ''order'' (ID ord')) bs 0]
         \<and> Serialize_order env ord' = Inr bs
         \<and> cache w' (GenerateCacheKey ''order'' (ID ord')) = Some (bs, 0)
         \<and> (\<forall>k. key_matches ''orders:*'' k \<longrightarrow> cache w' k = None)
         \<and> User ord' \<noteq> None \<and> Payment ord' \<noteq> None
         \<and> (\<forall>l\<in>set (Products ord'). \<exists>p c. Product l = Some p \<and> Category p = Some c)"
proof -
  from assms obtain tp lines w1 ord4 w2 w3 bs where
    v: "validateProducts env 0 (Products ord) w = (Inr tp, lines, w1)"
    and w2: "w2 = w1\<lparr>calls := calls w1 @ [OrderRepo_CreateOrder],
                     orders := orders w1 @ [order_row ord4]\<rparr>"
    and a: "attachRelations env ord4 w2 = (None, ord', w3)"
    and bs: "Serialize_order env ord' = Inr bs"
    and w': "w' = w3\<lparr>calls := calls w3 @ [Cache_DeleteByPrefix ''orders:*'',
                                   Cache_Set (GenerateCacheKey ''order'' (ID ord')) bs 0],
              cache := (\<lambda>k. if key_matches ''orders:*'' k then None else cache w3 k)
                         (GenerateCacheKey ''order'' (ID ord') \<mapsto> (bs, 0))\<rparr>"
    by (rule CreateOrder_success)
  from attachRelations_world[OF a] obtain cs where
    w3: "calls w3 = calls w2 @ cs" by (auto simp: reads_only_def)
  have "calls w' = calls w @ (productReads (Products ord) @ OrderRepo_CreateOrder # cs) @
             [Cache_DeleteByPrefix ''orders:*'',
              Cache_Set (GenerateCacheKey ''order'' (ID ord')) bs 0]"
    by (simp add: w' w3 w2 validateProducts_calls[OF v])
  moreover have "cache w' (GenerateCacheKey ''order'' (ID ord')) = Some (bs, 0)"
    by (simp add: w')
  moreover have "\<forall>k. key_matches ''orders:*'' k \<longrightarrow> cache w' k = None"
    using order_key_not_listing by (auto simp: w')
  moreover from attachRelations_success[OF a]
  have "User ord' \<noteq> None \<and> Payment ord' \<noteq> None
      \<and> (\<forall>l\<in>set (Products ord'). \<exists>p c. Product l = Some p \<and> Category p = Some c)"
    by (auto dest: list_all2_attached_product)
  ultimately show ?thesis using bs by blast
qed

text \<open>
  The order of three teas: the calls made end with the two cache operations, the cached
  page \<open>orders:1-10\<close> of the listing is gone and the order is cached under \<open>order:1\<close>.
\<close>

theorem CreateOrder_cache_witness:
  "drop 6 (calls (snd (snd
       (CreateOrder (shop_env (\<lambda>n. None)) (order_for 1 [line_for 1 3] 40) shop))))
     = [Cache_DeleteByPrefix ''orders:*'', Cache_Set ''order:1'' ''order 1'' 0]
   \<and> cache shop ''orders:1-10'' = Some (''[]'', 0)
   \<and> cache (snd (snd
       (CreateOrder (shop_env (\<lambda>n. None)) (order_for 1 [line_for 1 3] 40) shop)))
        ''orders:1-10'' = None
   \<and> cache (snd (snd
       (CreateOrder (shop_env (\<lambda>n. None)) (order_for 1 [line_for 1 3] 40) shop)))
        ''order:1'' = Some (''order 1'', 0)"
proof -
  let ?R = "CreateOrder (shop_env (\<lambda>n. None)) (order_for 1 [line_for 1 3] 40) shop"
  have run: "?R = (Inr (fst (snd ?R)), fst (snd ?R), snd (snd ?R))"
    by (simp add: CreateOrder_def scenario_defs port_defs attachRelations_def Let_def)
  have calls: "drop 6 (calls (snd (snd ?R)))
     = [Cache_DeleteByPrefix ''orders:*'', Cache_Set ''order:1'' ''order 1'' 0]"
    by (simp add: CreateOrder_def scenario_defs port_defs attachRelations_def Let_def)
  have before: "cache shop ''orders:1-10'' = Some (''[]'', 0)"
    by (simp add: shop_def)
  have listing: "key_matches ''orders:*'' ''orders:1-10''"
    by (simp add: key_matches_def)
  have key: "GenerateCacheKey ''order'' (ID (fst (snd ?R))) = ''order:1''"
    by (simp add: CreateOrder_def scenario_defs port_defs attachRelations_def Let_def)
  have ser: "Serialize_order (shop_env (\<lambda>n. None)) (fst (snd ?R)) = Inr ''order 1''"
    by (simp add: CreateOrder_def scenario_defs port_defs attachRelations_def Let_def)
  from CreateOrder_cache[OF run] key ser listing
  have "cache (snd (snd ?R)) ''order:1'' = Some (''order 1'', 0)"
    and "cache (snd (snd ?R)) ''orders:1-10'' = None"
    by auto
  with calls before show ?thesis by blast
qed

subsection \<open>Payment check of \<open>CreateOrder\<close>\<close>

text \<open>
  Claim C2, as amended. Let the stock checks of an order all pass, with \<open>tp\<close> the total
  price the loop has computed. Then \<open>CreateOrder\<close> fails with
  \<open>ErrInsufficientPayment\<close> exactly when the total paid is less than \<open>tp\<close>, and in
  that case the world is the one before the call with the product reads of the loop
  added: no order is persisted and the cache is not touched. Every order that the call
  returns has the total paid it came with, the total price \<open>tp\<close> and as total return
  the total paid minus the total price. When the total paid is not less than \<open>tp\<close>, as
  when the two are equal, the call succeeds provided that no port call fails on its own,
  the user, the payment and the category of every product are in the stores and the
  order can be serialized.
\<close>

theorem CreateOrder_payment:
  fixes env :: "'f::{zero,plus,minus,times,ord} env"
  assumes run: "CreateOrder env ord w = (r, ord', w')"
      and v: "validateProducts env 0 (Products ord) w = (Inr tp, lines, w1)"
  shows "(r = Inl ErrInsufficientPayment \<longleftrightarrow> TotalPaid ord < tp)
       \<and> (TotalPaid ord < tp \<longrightarrow> w' = w\<lparr>calls := calls w @ productReads (Products ord)\<rparr>)
       \<and> (\<forall>x. r = Inr x \<longrightarrow>
             TotalPaid x = TotalPaid ord \<and> TotalPrice x = tp
             \<and> TotalReturn x = TotalPaid x - TotalPrice x)
       \<and> (\<not> TotalPaid ord < tp \<and> (\<forall>n. fault env n = None) \<and> relations_found w ord
            \<and> (\<forall>x. \<not> isl (Serialize_order env x))
           \<longrightarrow> (\<exists>x. r = Inr x))"
proof -
  have under: "r = Inl ErrInsufficientPayment
             \<and> w' = w\<lparr>calls := calls w @ productReads (Products ord)\<rparr>"
    if "TotalPaid ord < tp"
    using CreateOrder_underpaid[OF v that] run validateProducts_calls[OF v] by simp
  have other: "r \<noteq> Inl ErrInsufficientPayment" if "\<not> TotalPaid ord < tp"
  proof
    assume "r = Inl ErrInsufficientPayment"
    with run CreateOrder_after_payment_error[OF _ v that] show False by auto
  qed
  have totals: "TotalPaid x = TotalPaid ord \<and> TotalPrice x = tp
              \<and> TotalReturn x = TotalPaid x - TotalPrice x" if "r = Inr x" for x
  proof -
    from run that obtain tp' lines' w1' ord4 w2 w3 where
      v': "validateProducts env 0 (Products ord) w = (Inr tp', lines', w1')"
      and ord4: "ord4 = ord\<lparr>Products := lines', TotalPrice := tp',
                   TotalReturn := TotalPaid ord - tp', ID := of_nat (length (orders w1')) + 1\<rparr>"
      and a: "attachRelations env ord4 w2 = (None, x, w3)"
      by (auto elim: CreateOrder_success)
    from v v' have "tp' = tp" by simp
    with attachRelations_success[OF a] ord4 show ?thesis by auto
  qed
  have succeeds: "\<exists>x. r = Inr x"
    if "\<not> TotalPaid ord < tp" "\<forall>n. fault env n = None" "relations_found w ord"
       "\<forall>x. \<not> isl (Serialize_order env x)"
    using CreateOrder_succeeds[OF v that] run by auto
  from under other totals succeeds show ?thesis by blast
qed

text \<open>
  Five teas cost 50.00. Paid with 50.00 the order is created with nothing to return;
  paid with 49.00 it is refused and nothing is persisted or cached.
\<close>

theorem CreateOrder_payment_witness:
  "fst (validateProducts (shop_env (\<lambda>n. None)) 0 (Products (order_for 1 [line_for 1 5] 50)) shop)
     = Inr 50
   \<and> \<not> isl (fst (CreateOrder (shop_env (\<lambda>n. None)) (order_for 1 [line_for 1 5] 50) shop))
   \<and> TotalReturn (projr (fst
        (CreateOrder (shop_env (\<lambda>n. None)) (order_for 1 [line_for 1 5] 50) shop))) = 0
   \<and> fst (CreateOrder (shop_env (\<lambda>n. None)) (order_for 1 [line_for 1 5] 49) shop)
       = Inl ErrInsufficientPayment
   \<and> snd (snd (CreateOrder (shop_env (\<lambda>n. None)) (order_for 1 [line_for 1 5] 49) shop))
       = shop\<lparr>calls := [ProductRepo_GetProductByID 1]\<rparr>"
proof -
  let ?env = "shop_env (\<lambda>n. None)"
  let ?R = "CreateOrder ?env (order_for 1 [line_for 1 5] 50) shop"
  let ?S = "CreateOrder ?env (order_for 1 [line_for 1 5] 49) shop"
  let ?l = "[(line_for 1 5)\<lparr>line_TotalPrice := 50\<rparr>]"
  let ?w1 = "shop\<lparr>calls := [ProductRepo_GetProductByID 1]\<rparr>"
  have v: "validateProducts ?env 0 (Products (order_for 1 [line_for 1 5] 50)) shop
             = (Inr 50, ?l, ?w1)"
    by (simp add: scenario_defs port_defs)
  have v': "validateProducts ?env 0 (Products (order_for 1 [line_for 1 5] 49)) shop
             = (Inr 50, ?l, ?w1)"
    by (simp add: scenario_defs port_defs)
  have found: "relations_found shop (order_for 1 [line_for 1 5] 50)"
    by (simp add: relations_found_def line_found_def scenario_defs row_by_id_def)
  have env: "\<forall>n. fault ?env n = None" "\<forall>x. \<not> isl (Serialize_order ?env x)"
    by (simp_all add: shop_env_def)
  have paid: "\<not> TotalPaid (order_for 1 [line_for 1 5] 50) < (50::real)"
    "TotalPaid (order_for 1 [line_for 1 5] 50) = (50::real)"
    "TotalPaid (order_for 1 [line_for 1 5] 49) < (50::real)"
    by (simp_all add: order_for_def)
  have reads: "shop\<lparr>calls := calls shop @ productReads (Products (order_for 1 [line_for 1 5] 49))\<rparr>
                 = ?w1"
    by (simp add: scenario_defs)
  obtain r co w' where R: "?R = (r, co, w')" by (metis prod_cases3)
  obtain r' co' w'' where S: "?S = (r', co', w'')" by (metis prod_cases3)
  from CreateOrder_payment[OF R v] found env paid(1,2) obtain x where
    "r = Inr x" "TotalReturn x = 0" by auto
  moreover from CreateOrder_payment[OF S v'] paid(3) reads
  have "r' = Inl ErrInsufficientPayment" "w'' = ?w1" by auto
  ultimately show ?thesis by (simp add: R S v)
qed

text \<open>
  The claim as first stated has the creation succeed whenever the total paid equals the
  total price. An order of five teas paid with 50.00 for a user that does not exist passes
  both checks and fails with \<open>ErrDataNotFound\<close>; the same order for the user of the
  shop fails with \<open>ErrInternal\<close> when the store in the cache, the eighth port call of
  the run, fails.
\<close>

theorem CreateOrder_payment_counterexample:
  "fst (validateProducts (shop_env (\<lambda>n. None)) 0 (Products (order_for 9 [line_for 1 5] 50)) shop)
     = Inr 50
   \<and> TotalPaid (order_for 9 [line_for 1 5] 50) = 50
   \<and> fst (CreateOrder (shop_env (\<lambda>n. None)) (order_for 9 [line_for 1 5] 50) shop)
       = Inl ErrDataNotFound
   \<and> fst (validateProducts (shop_env (\<lambda>n. if n = 7 then Some ErrAdapter else None)) 0
          (Products (order_for 1 [line_for 1 5] 50)) shop)
       = Inr 50
   \<and> TotalPaid (order_for 1 [line_for 1 5] 50) = 50
   \<and> fst (CreateOrder (shop_env (\<lambda>n. if n = 7 then Some ErrAdapter else None))
          (order_for 1 [line_for 1 5] 50) shop)
       = Inl ErrInternal"
  by (simp add: run_defs)

subsection \<open>Failure after the order is written\<close>

text \<open>
  Claim C5. Let the stock checks and the payment check of an order pass and the write of
  the order repository succeed. If \<open>CreateOrder\<close> then returns an error, whichever
  later step it comes from (the read of the user, the payment, a product or a category,
  the deletion of the cached listings, the serialization or the store in the cache), the
  error is \<open>ErrDataNotFound\<close> or \<open>ErrInternal\<close> and the order written is still in the
  order repository. The witness gives two such runs.
\<close>

theorem CreateOrder_partial_success:
  fixes env :: "'f::{zero,plus,minus,times,ord} env"
  assumes "CreateOrder env ord w = (Inl e, ord', w')"
      and "validateProducts env 0 (Products ord) w = (Inr tp, lines, w1)"
      and "\<not> TotalPaid ord < tp"
      and "fault env (length (calls w1)) = None"
  shows "orders w' = orders w @
           [order_row (ord\<lparr>Products := lines, TotalPrice := tp,
              TotalReturn := TotalPaid ord - tp, ID := of_nat (length (orders w)) + 1\<rparr>)]
       \<and> (e = ErrDataNotFound \<or> e = ErrInternal)"
  using CreateOrder_after_write[OF assms] CreateOrder_after_payment_error[OF assms(1,2,3)]
  by simp

text \<open>
  Three teas paid with 40.00, once with the store in the cache failing (the eighth port
  call of the run) and once with the second read of the product failing (the fifth):
  both runs return \<open>ErrInternal\<close> and leave the order in the order repository.
\<close>

theorem CreateOrder_partial_success_witness:
  "fst (CreateOrder (shop_env (\<lambda>n. if n = 7 then Some ErrAdapter else None))
          (order_for 1 [line_for 1 3] 40) shop) = Inl ErrInternal
   \<and> map TotalPrice (orders (snd (snd
         (CreateOrder (shop_env (\<lambda>n. if n = 7 then Some ErrAdapter else None))
            (order_for 1 [line_for 1 3] 40) shop)))) = [30]
   \<and> fst (CreateOrder (shop_env (\<lambda>n. if n = 4 then Some ErrAdapter else None))
          (order_for 1 [line_for 1 3] 40) shop) = Inl ErrInternal
   \<and> map TotalPrice (orders (snd (snd
         (CreateOrder (shop_env (\<lambda>n. if n = 4 then Some ErrAdapter else None))
            (order_for 1 [line_for 1 3] 40) shop)))) = [30]"
proof -
  let ?f = "\<lambda>k n. if n = k then Some ErrAdapter else (None :: error option)"
  let ?ord = "order_for 1 [line_for 1 3] 40"
  let ?l = "[(line_for 1 3)\<lparr>line_TotalPrice := 30\<rparr>]"
  let ?w1 = "shop\<lparr>calls := [ProductRepo_GetProductByID 1]\<rparr>"
  have v: "validateProducts (shop_env (?f k)) 0 (Products ?ord) shop = (Inr 30, ?l, ?w1)"
    if "k \<noteq> 0" for k :: nat
    using that by (simp add: scenario_defs port_defs)
  have paid: "\<not> TotalPaid ?ord < (30::real)" by (simp add: order_for_def)
  have wr: "fault (shop_env (?f k)) (length (calls ?w1)) = None" if "k \<noteq> 1" for k :: nat
    using that by (simp add: shop_env_def)
  have r7: "fst (CreateOrder (shop_env (?f 7)) ?ord shop) = Inl ErrInternal"
    by (simp add: run_defs)
  have r4: "fst (CreateOrder (shop_env (?f 4)) ?ord shop) = Inl ErrInternal"
    by (simp add: run_defs)
  obtain co7 w7 where R7: "CreateOrder (shop_env (?f 7)) ?ord shop = (Inl ErrInternal, co7, w7)"
    using r7 by (metis fst_conv prod_cases3)
  obtain co4 w4 where R4: "CreateOrder (shop_env (?f 4)) ?ord shop = (Inl ErrInternal, co4, w4)"
    using r4 by (metis fst_conv prod_cases3)
  from CreateOrder_partial_success[OF R7 v paid wr]
  have "map TotalPrice (orders w7) = [30]" by (simp add: shop_def order_row_def)
  moreover from CreateOrder_partial_success[OF R4 v paid wr]
  have "map TotalPrice (orders w4) = [30]" by (simp add: shop_def order_row_def)
  ultimately show ?thesis by (simp add: R7 R4)
qed

subsection \<open>No write of the product repository\<close>

text \<open>
  Claim C4. Whatever its result, \<open>CreateOrder\<close> makes no call that writes to the
  product repository (\<open>CreateProduct\<close>, \<open>UpdateProduct\<close>, \<open>DeleteProduct\<close>): the product
  rows after the call are the rows before it, so a product that a line item of the order
  refers to has the stock it had. The order repository's write, which is not among the
  sources, is taken from the spec as a write of the order only.
\<close>

theorem CreateOrder_no_stock_write:
  fixes env :: "'f::{zero,plus,minus,times,ord} env"
  assumes "CreateOrder env ord w = (r, ord', w')"
  shows "products w' = products w
       \<and> (\<exists>cs. calls w' = calls w @ cs \<and> list_all (\<lambda>c. \<not> is_product_write c) cs)
       \<and> (\<forall>l\<in>set (Products ord). \<forall>p.
             row_by_id product_ID (products w) (ProductID l) = Inr p \<longrightarrow>
               (\<exists>p'. row_by_id product_ID (products w') (ProductID l) = Inr p'
                    \<and> Stock p' = Stock p))"
  using CreateOrder_world[OF assms] by simp

text \<open>
  After the order of three teas is created, the stock of tea is still five.
\<close>

theorem CreateOrder_no_stock_write_witness:
  "\<not> isl (fst (CreateOrder (shop_env (\<lambda>n. None)) (order_for 1 [line_for 1 3] 40) shop))
   \<and> map Stock (products shop) = [5]
   \<and> map Stock (products (snd (snd
        (CreateOrder (shop_env (\<lambda>n. None)) (order_for 1 [line_for 1 3] 40) shop)))) = [5]"
proof -
  let ?R = "CreateOrder (shop_env (\<lambda>n. None)) (order_for 1 [line_for 1 3] 40) shop"
  have ok: "\<not> isl (fst ?R)" by (simp add: run_defs)
  have before: "map Stock (products shop) = [5]" by (simp add: shop_def tea_def)
  obtain r co w' where R: "?R = (r, co, w')" by (metis prod_cases3)
  from CreateOrder_no_stock_write[OF R] before have "map Stock (products w') = [5]" by simp
  with ok before show ?thesis by (simp add: R)
qed

subsection \<open>Writes to the caller's order\<close>

text \<open>
  Claim C10. Let \<open>CreateOrder\<close> stop in its first loop (a product is not read or is short
  of stock) or at the payment check. Then it returns an error, and the caller's order is
  left with the line items as the loop wrote them: the line items before the one that
  stopped the loop, all of them if the loop ran to its end, carry the total price that was
  computed for them, and the rest are as they were. The stores are not changed: the world
  is the one before the call with the product reads added.
\<close>

theorem CreateOrder_mutates_order:
  fixes env :: "'f::{zero,plus,minus,times,ord} env"
  assumes run: "CreateOrder env ord w = (r, ord', w')"
      and v: "validateProducts env 0 (Products ord) w = (rv, lines, w1)"
      and stop: "isl rv \<or> TotalPaid ord < projr rv"
  shows "isl r \<and> ord' = ord\<lparr>Products := lines\<rparr>
       \<and> (\<exists>pre pre' rest.
             Products ord = pre @ rest \<and> lines = pre' @ rest
             \<and> list_all2 (priced env (products w)) pre pre'
             \<and> (isl rv \<longleftrightarrow> rest \<noteq> []))
       \<and> (\<exists>k\<le>length (Products ord).
             w' = w\<lparr>calls := calls w @ productReads (take k (Products ord))\<rparr>)"
proof (cases rv)
  case (Inl e)
  from CreateOrder_validate_fails[OF v[unfolded Inl]] run
  have "r = Inl e" "ord' = ord\<lparr>Products := lines\<rparr>" "w' = w1" by simp_all
  moreover from validateProducts_failure[OF v[unfolded Inl]] obtain pre line post pre' where
    "Products ord = pre @ (line # post)" "lines = pre' @ (line # post)"
    "list_all2 (priced env (products w)) pre pre'" by blast
  then have "\<exists>pre pre' rest.
             Products ord = pre @ rest \<and> lines = pre' @ rest
             \<and> list_all2 (priced env (products w)) pre pre' \<and> (isl rv \<longleftrightarrow> rest \<noteq> [])"
    using Inl by (intro exI[of _ pre] exI[of _ pre'] exI[of _ "line # post"]) simp
  moreover note validateProducts_world[OF v]
  ultimately show ?thesis by simp
next
  case (Inr tp)
  with stop have "TotalPaid ord < tp" by simp
  from CreateOrder_underpaid[OF v[unfolded Inr] this] run
  have "r = Inl ErrInsufficientPayment" "ord' = ord\<lparr>Products := lines\<rparr>" "w' = w1" by simp_all
  moreover from validateProducts_success[OF v[unfolded Inr]]
  have "list_all2 (priced env (products w)) (Products ord) lines" by simp
  then have "\<exists>pre pre' rest.
             Products ord = pre @ rest \<and> lines = pre' @ rest
             \<and> list_all2 (priced env (products w)) pre pre' \<and> (isl rv \<longleftrightarrow> rest \<noteq> [])"
    using Inr by (intro exI[of _ "Products ord"] exI[of _ lines] exI[of _ "[]"]) simp
  moreover note validateProducts_world[OF v]
  ultimately show ?thesis by simp
qed

text \<open>
  Two teas and then a product that does not exist: the call fails with
  \<open>ErrDataNotFound\<close>, and the first line item of the caller's order, whose total was
  zero, now has the total 20.00. Five teas paid with 49.00: the call fails with
  \<open>ErrInsufficientPayment\<close> and the line item has the total 50.00.
\<close>

theorem CreateOrder_mutates_order_witness:
  "map line_TotalPrice (Products (order_for 1 [line_for 1 2, line_for 7 1] 40)) = [0, 0]
   \<and> fst (CreateOrder (shop_env (\<lambda>n. None)) (order_for 1 [line_for 1 2, line_for 7 1] 40) shop)
       = Inl ErrDataNotFound
   \<and> map line_TotalPrice (Products (fst (snd
        (CreateOrder (shop_env (\<lambda>n. None)) (order_for 1 [line_for 1 2, line_for 7 1] 40) shop))))
       = [20, 0]
   \<and> fst (CreateOrder (shop_env (\<lambda>n. None)) (order_for 1 [line_for 1 5] 49) shop)
       = Inl ErrInsufficientPayment
   \<and> map line_TotalPrice (Products (fst (snd
        (CreateOrder (shop_env (\<lambda>n. None)) (order_for 1 [line_for 1 5] 49) shop))))
       = [50]"
proof -
  let ?env = "shop_env (\<lambda>n. None)"
  let ?A = "order_for 1 [line_for 1 2, line_for 7 1] 40"
  let ?B = "order_for 1 [line_for 1 5] 49"
  have vA: "validateProducts ?env 0 (Products ?A) shop
     = (Inl ErrDataNotFound, [(line_for 1 2)\<lparr>line_TotalPrice := 20\<rparr>, line_for 7 1],
        shop\<lparr>calls := [ProductRepo_GetProductByID 1, ProductRepo_GetProductByID 7]\<rparr>)"
    by (simp add: scenario_defs port_defs)
  have vB: "validateProducts ?env 0 (Products ?B) shop
     = (Inr 50, [(line_for 1 5)\<lparr>line_TotalPrice := 50\<rparr>],
        shop\<lparr>calls := [ProductRepo_GetProductByID 1]\<rparr>)"
    by (simp add: scenario_defs port_defs)
  have rA: "fst (CreateOrder ?env ?A shop) = Inl ErrDataNotFound"
    by (simp add: run_defs)
  have rB: "fst (CreateOrder ?env ?B shop) = Inl ErrInsufficientPayment"
    by (simp add: run_defs)
  obtain r co w' where A: "CreateOrder ?env ?A shop = (r, co, w')" by (metis prod_cases3)
  obtain r' co' w'' where B: "CreateOrder ?env ?B shop = (r', co', w'')" by (metis prod_cases3)
  from CreateOrder_mutates_order[OF A vA]
  have "map line_TotalPrice (Products co) = [20, 0]" by (simp add: line_for_def)
  moreover from CreateOrder_mutates_order[OF B vB]
  have "map line_TotalPrice (Products co') = [50]" by (simp add: order_for_def line_for_def)
  moreover have "map line_TotalPrice (Products ?A) = [0, 0]"
    by (simp add: order_for_def line_for_def)
  ultimately show ?thesis using rA rB by (simp add: A B)
qed

subsection \<open>Cache hit of \<open>GetOrder\<close>\<close>

text \<open>
  Claim C7. Let the cache lookup of \<open>GetOrder\<close> for the key of the order succeed with
  the bytes \<open>bs\<close>. If \<open>bs\<close> deserializes to an order, \<open>GetOrder\<close> returns that order;
  if it does not, \<open>GetOrder\<close> returns \<open>ErrInternal\<close>. In both cases the world after the
  call is the world before it with the one cache lookup added to the calls made: there is
  no read of a repository, no fall back to the order repository and no write to the cache.
\<close>

theorem GetOrder_cache_hit:
  assumes "cache_Get env (GenerateCacheKey ''order'' id') w = (Inr bs, w1)"
  shows "(\<forall>ord. Deserialize_order env bs = Inr ord \<longrightarrow>
            GetOrder env id' w =
              (Inr ord, w\<lparr>calls := calls w @ [Cache_Get (GenerateCacheKey ''order'' id')]\<rparr>))
       \<and> (\<forall>e. Deserialize_order env bs = Inl e \<longrightarrow>
            GetOrder env id' w =
              (Inl ErrInternal,
               w\<lparr>calls := calls w @ [Cache_Get (GenerateCacheKey ''order'' id')]\<rparr>))"
proof -
  from assms have "w1 = w\<lparr>calls := calls w @ [Cache_Get (GenerateCacheKey ''order'' id')]\<rparr>"
    by (simp add: cache_Get_eq)
  with assms show ?thesis by (simp add: GetOrder_def)
qed

text \<open>
  A cache that holds a serialized order under \<open>order:1\<close> and bytes that are no order
  under \<open>order:2\<close>: the first is returned, the second gives \<open>ErrInternal\<close>, and each
  call has made the cache lookup and nothing else.
\<close>

theorem GetOrder_cache_hit_witness:
  "GetOrder (shop_env (\<lambda>n. None)) 1 shop_cached
     = (Inr (order_for 1 [] 0), shop_cached\<lparr>calls := [Cache_Get ''order:1'']\<rparr>)
   \<and> GetOrder (shop_env (\<lambda>n. None)) 2 shop_cached
     = (Inl ErrInternal, shop_cached\<lparr>calls := [Cache_Get ''order:2'']\<rparr>)"
proof -
  let ?env = "shop_env (\<lambda>n. None)"
  have k: "GenerateCacheKey ''order'' 1 = ''order:1''" "GenerateCacheKey ''order'' 2 = ''order:2''"
    by (simp_all add: GenerateCacheKey_def decimal.simps)
  have empty: "calls shop_cached = []" by (simp add: shop_cached_def shop_def)
  have h1: "cache_Get ?env (GenerateCacheKey ''order'' 1) shop_cached
              = (Inr ''order 0'', shop_cached\<lparr>calls := [Cache_Get ''order:1'']\<rparr>)"
    by (simp add: k cache_Get_eq empty) (simp add: shop_cached_def shop_env_def)
  have h2: "cache_Get ?env (GenerateCacheKey ''order'' 2) shop_cached
              = (Inr ''garbage'', shop_cached\<lparr>calls := [Cache_Get ''order:2'']\<rparr>)"
    by (simp add: k cache_Get_eq empty) (simp add: shop_cached_def shop_env_def)
  have d: "Deserialize_order ?env ''order 0'' = Inr (order_for 1 [] 0)"
    "Deserialize_order ?env ''garbage'' = Inl ErrAdapter"
    by (simp_all add: shop_env_def)
  from GetOrder_cache_hit[OF h1] GetOrder_cache_hit[OF h2] d show ?thesis
    by (simp add: k empty)
qed

subsection \<open>Update of a category without new data\<close>

text \<open>
  Claim C8. Let the category repository hold a category under the id of the category
  passed to \<open>UpdateCategory\<close>, and let the read of it succeed. If the name passed is
  empty or is the stored name, \<open>UpdateCategory\<close> returns \<open>ErrNoUpdatedData\<close>, and the
  world after the call is the world before it with that one read added to the calls
  made: no write to the repository, and no delete, set or deletion by prefix in the cache.
\<close>

theorem UpdateCategory_no_update:
  assumes "fault env (length (calls w)) = None"
      and "row_by_id category_ID (categories w) (category_ID c) = Inr stored"
      and "category_Name c = [] \<or> category_Name c = category_Name stored"
  shows "UpdateCategory env c w =
           (Inl ErrNoUpdatedData,
            w\<lparr>calls := calls w @ [CategoryRepo_GetCategoryByID (category_ID c)]\<rparr>)"
  using assms by (auto simp: UpdateCategory_def categoryRepo_GetCategoryByID_eq)

text \<open>
  The category \<open>drinks\<close> of the shop, updated with its own name and with the empty name.
\<close>

theorem UpdateCategory_no_update_witness:
  "UpdateCategory (shop_env (\<lambda>n. None)) drinks shop
     = (Inl ErrNoUpdatedData, shop\<lparr>calls := [CategoryRepo_GetCategoryByID 1]\<rparr>)
   \<and> UpdateCategory (shop_env (\<lambda>n. None)) (drinks\<lparr>category_Name := []\<rparr>) shop
     = (Inl ErrNoUpdatedData, shop\<lparr>calls := [CategoryRepo_GetCategoryByID 1]\<rparr>)"
proof -
  let ?env = "shop_env (\<lambda>n. None)"
  have f: "fault ?env (length (calls shop)) = None" by (simp add: shop_env_def)
  have r: "row_by_id category_ID (categories shop) (category_ID drinks) = Inr drinks"
    "row_by_id category_ID (categories shop) (category_ID (drinks\<lparr>category_Name := []\<rparr>))
       = Inr drinks"
    by (simp_all add: row_by_id_def shop_def drinks_def)
  have n: "category_Name drinks = [] \<or> category_Name drinks = category_Name drinks"
    "category_Name (drinks\<lparr>category_Name := []\<rparr>) = []
       \<or> category_Name (drinks\<lparr>category_Name := []\<rparr>) = category_Name drinks"
    by simp_all
  from UpdateCategory_no_update[OF f r(1) n(1)] UpdateCategory_no_update[OF f r(2) n(2)]
  show ?thesis by (simp add: shop_def drinks_def)
qed

subsection \<open>Offset of \<open>ListPayments\<close>\<close>

text \<open>
  Claim C9. The offset of the query of \<open>ListPayments\<close> is \<open>(skip - 1) * limit\<close> on
  64-bit words. For \<open>skip = 0\<close> it is \<open>- limit\<close>, that is \<open>2 ^ 64 - limit\<close> for a
  limit that is not zero; for \<open>skip = 1\<close> it is zero; and for a \<open>skip\<close> of at least
  one it is \<open>(skip - 1) * limit\<close> on the natural numbers as long as this is below
  \<open>2 ^ 64\<close>. So \<open>skip\<close> is the number of the page, counted from one: with \<open>skip = 1\<close>
  the query answers with the first \<open>limit\<close> rows, and with \<open>skip = 0\<close> it answers with no
  row, for every table with at most \<open>2 ^ 64 - limit\<close> rows.
\<close>

theorem ListPayments_offset_wraps:
  "ListPayments_offset 0 limit = - limit
   \<and> (limit \<noteq> 0 \<longrightarrow> unat (ListPayments_offset 0 limit) = 2 ^ 64 - unat limit)
   \<and> ListPayments_offset 1 limit = 0
   \<and> (skip \<noteq> 0 \<and> (unat skip - 1) * unat limit < 2 ^ 64 \<longrightarrow>
        unat (ListPayments_offset skip limit) = (unat skip - 1) * unat limit)
   \<and> (limit \<noteq> 0 \<and> fault env (length (calls w)) = None
        \<and> length (payments w) + unat limit \<le> 2 ^ 64 \<longrightarrow>
        fst (ListPayments env 0 limit w) = Inr [])
   \<and> (fault env (length (calls w)) = None \<longrightarrow>
        fst (ListPayments env 1 limit w)
          = Inr (take (unat limit) (sort_key payment_ID (payments w))))"
proof -
  have zero: "ListPayments_offset 0 limit = - limit"
    by (simp add: ListPayments_offset_def)
  have wrap: "unat (ListPayments_offset 0 limit) = 2 ^ 64 - unat limit" if "limit \<noteq> 0"
  proof -
    from that have "0 < unat limit" by (simp add: unat_gt_0)
    with unat_sub_if'[of 0 limit] show ?thesis by (simp add: zero)
  qed
  have one: "ListPayments_offset 1 limit = 0"
    by (simp add: ListPayments_offset_def)
  have page: "unat (ListPayments_offset skip limit) = (unat skip - 1) * unat limit"
    if "skip \<noteq> 0" "(unat skip - 1) * unat limit < 2 ^ 64"
  proof -
    from that(1) have "unat (skip - 1) = unat skip - 1"
      by (simp add: unat_minus_one)
    with that(2) show ?thesis
      using unat_mult_lem[of "skip - 1" limit] by (simp add: ListPayments_offset_def)
  qed
  have none: "fst (ListPayments env 0 limit w) = Inr []"
    if "limit \<noteq> 0" "fault env (length (calls w)) = None"
       "length (payments w) + unat limit \<le> 2 ^ 64"
    using that wrap[OF that(1)]
    by (simp add: ListPayments_def port_def)
  have first: "fst (ListPayments env 1 limit w)
          = Inr (take (unat limit) (sort_key payment_ID (payments w)))"
    if "fault env (length (calls w)) = None"
    using that by (simp add: ListPayments_def port_def one)
  from zero wrap one page none first show ?thesis by blast
qed

text \<open>
  With a limit of ten, a \<open>skip\<close> of zero gives the offset 18446744073709551606 and no row
  of the shop's payments, a \<open>skip\<close> of one gives the offset zero and the payment of the
  shop.
\<close>

theorem ListPayments_offset_wraps_witness:
  "ListPayments_offset 0 10 = 18446744073709551606
   \<and> unat (ListPayments_offset 0 10) = 2 ^ 64 - 10
   \<and> unat (ListPayments_offset 3 10) = 20
   \<and> fst (ListPayments (shop_env (\<lambda>n. None)) 0 10 shop) = Inr []
   \<and> fst (ListPayments (shop_env (\<lambda>n. None)) 1 10 shop)
       = Inr [\<lparr>payment_ID = 1, payment_Name = ''cash''\<rparr>]"
proof -
  let ?env = "shop_env (\<lambda>n. None)"
  have f: "fault ?env (length (calls shop)) = None" by (simp add: shop_env_def)
  have len: "length (payments shop) + unat (10 :: u64) \<le> 2 ^ 64" by (simp add: shop_def)
  have ne: "(10 :: u64) \<noteq> 0" "(3 :: u64) \<noteq> 0" by simp_all
  have small: "(unat (3 :: u64) - 1) * unat (10 :: u64) < 2 ^ 64" by simp
  have rows: "take (unat (10 :: u64)) (sort_key payment_ID (payments shop))
                = [\<lparr>payment_ID = 1, payment_Name = ''cash''\<rparr>]"
    by (simp add: shop_def)
  from ListPayments_offset_wraps[of 10 3 ?env shop] f len ne small rows
  show ?thesis by simp
qed

end
